theory Spec2Isabelle
  imports Complex_Main "HOL-Library.Log_Nat"
begin

section \<open>Python values\<close>

text \<open>
  A Python \<open>str\<close> is a sequence of Unicode code points, so strings are lists of
  code point numbers. \<open>ascii\<close> writes an ASCII literal.
\<close>

type_synonym pystr = "nat list"

definition ascii :: "string \<Rightarrow> pystr" where
  "ascii s = map of_char s"

subsection \<open>Floats\<close>

text \<open>
  A Python \<open>float\<close> is an IEEE 754 binary64 number: a finite value (a rational), an
  infinity or a NaN. The two zeros are one value \<open>Fin 0\<close>: no operation of the program
  tells them apart (comparisons and truth value treat them alike, and a division by either
  raises).
\<close>

datatype pyfloat = Fin rat | PInf | NInf | NaN

definition pow2 :: "int \<Rightarrow> rat" where
  "pow2 e = (if 0 \<le> e then 2 ^ nat e else 1 / 2 ^ nat (- e))"

text \<open>The integer \<open>e\<close> with \<open>2\<^sup>e \<le> q < 2\<^sup>e\<^sup>+\<^sup>1\<close>, for \<open>q > 0\<close>.\<close>

definition floor_log2 :: "rat \<Rightarrow> int" where
  "floor_log2 q = (case quotient_of q of (a, b) \<Rightarrow>
     let d = bitlen a - bitlen b in if pow2 d \<le> q then d else d - 1)"

definition round_half_even :: "rat \<Rightarrow> int" where
  "round_half_even q = (let f = \<lfloor>q\<rfloor>; d = q - of_int f in
     if d < 1 / 2 then f else if 1 / 2 < d then f + 1 else if even f then f else f + 1)"

text \<open>
  Rounding of an exact result to binary64, to nearest with ties to even: 53 significant
  bits, the least exponent -1022 (below it the spacing stays \<open>2\<^sup>-\<^sup>1\<^sup>0\<^sup>7\<^sup>4\<close>), and overflow to
  an infinity from \<open>2\<^sup>1\<^sup>0\<^sup>2\<^sup>4\<close> on.
\<close>

definition rnd :: "rat \<Rightarrow> pyfloat" where
  "rnd x = (if x = 0 then Fin 0 else
     let e = max (floor_log2 \<bar>x\<bar>) (- 1022);
         u = pow2 (e - 52);
         y = of_int (round_half_even (x / u)) * u
     in if pow2 1024 \<le> y then PInf else if y \<le> - pow2 1024 then NInf else Fin y)"

text \<open>A float literal of the source (\<open>3.7\<close>) denotes the double nearest to it.\<close>

definition float_lit :: "rat \<Rightarrow> pyfloat" where
  "float_lit q = rnd q"

text \<open>The values that are doubles: rounding leaves them as they are.\<close>

definition is_double :: "rat \<Rightarrow> bool" where
  "is_double q = (rnd q = Fin q)"

text \<open>The values of the model that are floats.\<close>

fun valid_float :: "pyfloat \<Rightarrow> bool" where
  "valid_float (Fin q) = is_double q"
| "valid_float x = True"

text \<open>Comparisons: every comparison with a NaN is false.\<close>

fun fle :: "pyfloat \<Rightarrow> pyfloat \<Rightarrow> bool" where
  "fle NaN y = False"
| "fle x NaN = False"
| "fle NInf y = True"
| "fle x PInf = True"
| "fle (Fin a) (Fin b) = (a \<le> b)"
| "fle PInf y = False"
| "fle (Fin a) NInf = False"

fun flt :: "pyfloat \<Rightarrow> pyfloat \<Rightarrow> bool" where
  "flt NaN y = False"
| "flt x NaN = False"
| "flt (Fin a) (Fin b) = (a < b)"
| "flt PInf y = False"
| "flt x NInf = False"
| "flt NInf y = True"
| "flt (Fin a) PInf = True"

definition fge :: "pyfloat \<Rightarrow> pyfloat \<Rightarrow> bool" where
  "fge x y = fle y x"

definition fgt :: "pyfloat \<Rightarrow> pyfloat \<Rightarrow> bool" where
  "fgt x y = flt y x"

text \<open>The truth value of a float (\<open>if w\<close>): false for zero only; a NaN is true.\<close>

definition truthy :: "pyfloat \<Rightarrow> bool" where
  "truthy x = (x \<noteq> Fin 0)"

text \<open>Arithmetic: the exact result rounded, with the IEEE rules for infinities and NaN.\<close>

fun fsgn :: "pyfloat \<Rightarrow> int" where
  "fsgn (Fin a) = (if a < 0 then - 1 else if a = 0 then 0 else 1)"
| "fsgn PInf = 1"
| "fsgn NInf = - 1"
| "fsgn NaN = 0"

definition inf_of_sign :: "int \<Rightarrow> pyfloat" where
  "inf_of_sign s = (if s = 0 then NaN else if 0 < s then PInf else NInf)"

fun fadd :: "pyfloat \<Rightarrow> pyfloat \<Rightarrow> pyfloat" where
  "fadd NaN y = NaN"
| "fadd x NaN = NaN"
| "fadd (Fin a) (Fin b) = rnd (a + b)"
| "fadd PInf NInf = NaN"
| "fadd NInf PInf = NaN"
| "fadd PInf y = PInf"
| "fadd NInf y = NInf"
| "fadd (Fin a) y = y"

fun fmul :: "pyfloat \<Rightarrow> pyfloat \<Rightarrow> pyfloat" where
  "fmul NaN y = NaN"
| "fmul x NaN = NaN"
| "fmul (Fin a) (Fin b) = rnd (a * b)"
| "fmul x y = inf_of_sign (fsgn x * fsgn y)"

datatype py_error = ZeroDivisionError | OverflowError

text \<open>Division raises on a zero divisor, whatever the dividend.\<close>

fun fdiv :: "pyfloat \<Rightarrow> pyfloat \<Rightarrow> py_error + pyfloat" where
  "fdiv x (Fin b) = (if b = 0 then Inl ZeroDivisionError else
     (case x of Fin a \<Rightarrow> Inr (rnd (a / b)) | NaN \<Rightarrow> Inr NaN
      | _ \<Rightarrow> Inr (inf_of_sign (fsgn x * fsgn (Fin b)))))"
| "fdiv NaN y = Inr NaN"
| "fdiv x NaN = Inr NaN"
| "fdiv (Fin a) y = Inr (Fin 0)"
| "fdiv x y = Inr NaN"

subsection \<open>Values of a parsed JSON document\<close>

text \<open>
  What \<open>json.loads\<close> puts into a row: \<open>None\<close> (null), a bool, an int, a float
  (the parser accepts \<open>NaN\<close> and \<open>Infinity\<close>), a str, a list or a dict. Nothing in
  the program looks inside a list or a dict held in a field.
\<close>

datatype pyval = PNone | PBool bool | PInt int | PFloat pyfloat | PStr pystr | PList | PDict

type_synonym row = "pystr \<rightharpoonup> pyval"

text \<open>\<open>row.get(key)\<close>: \<open>None\<close> for an absent key.\<close>

definition dict_get :: "row \<Rightarrow> pystr \<Rightarrow> pyval" where
  "dict_get r k = (case r k of None \<Rightarrow> PNone | Some v \<Rightarrow> v)"

subsection \<open>Built-ins on strings\<close>

text \<open>
  \<open>str.strip()\<close> removes the code points for which \<open>str.isspace()\<close> holds, at both
  ends.
\<close>

definition is_space :: "nat \<Rightarrow> bool" where
  "is_space c = ((9 \<le> c \<and> c \<le> 13) \<or> (28 \<le> c \<and> c \<le> 32) \<or> c = 133 \<or> c = 160 \<or> c = 5760
     \<or> (8192 \<le> c \<and> c \<le> 8202) \<or> c = 8232 \<or> c = 8233 \<or> c = 8239 \<or> c = 8287 \<or> c = 12288)"

definition strip :: "pystr \<Rightarrow> pystr" where
  "strip s = rev (dropWhile is_space (rev (dropWhile is_space s)))"

text \<open>
  \<open>str.lower()\<close> on the ASCII letters. Code points outside ASCII are left as they are:
  Python lowers some of them, none to a character of the three tokens that the program
  compares a lowered string with.
\<close>

definition lower :: "pystr \<Rightarrow> pystr" where
  "lower s = map (\<lambda>c. if 65 \<le> c \<and> c \<le> 90 then c + 32 else c) s"

subsection \<open>The built-in \<open>float\<close>\<close>

text \<open>
  \<open>float(s)\<close> for a str first maps every code point from 127 on to ASCII: a space for
  white space, the digit for a decimal digit of any script, \<open>?\<close> for anything else.
  The table holds the code point of the digit zero of each script beyond ASCII (Unicode
  14.0); the digits one to nine follow it.
\<close>

definition decimal_zeros :: "nat list" where
  "decimal_zeros =
    [1632, 1776, 1984, 2406, 2534, 2662, 2790, 2918, 3046, 3174, 3302, 3430, 3558,
     3664, 3792, 3872, 4160, 4240, 6112, 6160, 6470, 6608, 6784, 6800, 6992, 7088,
     7232, 7248, 42528, 43216, 43264, 43472, 43504, 43600, 44016, 65296, 66720, 68912,
     69734, 69872, 69942, 70096, 70384, 70736, 70864, 71248, 71360, 71472, 71904,
     72016, 72784, 73040, 73120, 92768, 92864, 93008, 120782, 120792, 120802, 120812,
     120822, 123200, 123632, 125264, 130032]"

definition decimal_digit :: "nat \<Rightarrow> nat option" where
  "decimal_digit c = (case filter (\<lambda>z. z \<le> c \<and> c < z + 10) decimal_zeros of
     [] \<Rightarrow> None | z # zs \<Rightarrow> Some (c - z))"

definition to_ascii :: "nat \<Rightarrow> nat" where
  "to_ascii c = (if c < 127 then c else if is_space c then 32 else
     (case decimal_digit c of None \<Rightarrow> 63 | Some d \<Rightarrow> 48 + d))"

text \<open>The ASCII white space that \<open>float\<close> itself skips at both ends.\<close>

definition c_isspace :: "nat \<Rightarrow> bool" where
  "c_isspace c = ((9 \<le> c \<and> c \<le> 13) \<or> c = 32)"

definition c_strip :: "pystr \<Rightarrow> pystr" where
  "c_strip s = rev (dropWhile c_isspace (rev (dropWhile c_isspace s)))"

definition is_digit :: "nat \<Rightarrow> bool" where
  "is_digit c = (48 \<le> c \<and> c \<le> 57)"

text \<open>An underscore is allowed between two digits only; \<open>prev\<close> is the character before.\<close>

fun underscores_ok :: "nat \<Rightarrow> pystr \<Rightarrow> bool" where
  "underscores_ok prev [] = (prev \<noteq> 95)"
| "underscores_ok prev (c # cs) =
     ((if c = 95 then is_digit prev else if prev = 95 then is_digit c else True)
      \<and> underscores_ok c cs)"

definition split_sign :: "pystr \<Rightarrow> bool \<times> pystr" where
  "split_sign t = (case t of [] \<Rightarrow> (False, [])
     | c # r \<Rightarrow> if c = 45 then (True, r) else if c = 43 then (False, r) else (False, t))"

definition digits_val :: "pystr \<Rightarrow> nat" where
  "digits_val ds = foldl (\<lambda>acc c. acc * 10 + (c - 48)) 0 ds"

definition pow10 :: "int \<Rightarrow> rat" where
  "pow10 k = (if 0 \<le> k then 10 ^ nat k else 1 / 10 ^ nat (- k))"

text \<open>What follows the mantissa: nothing, or \<open>e\<close>, an optional sign and digits.\<close>

definition parse_exponent :: "pystr \<Rightarrow> int option" where
  "parse_exponent r = (case r of [] \<Rightarrow> Some 0
     | c # r' \<Rightarrow>
        if c = 101 \<or> c = 69 then
          (case split_sign r' of (neg, ds) \<Rightarrow>
             if ds \<noteq> [] \<and> list_all is_digit ds
             then Some (if neg then - int (digits_val ds) else int (digits_val ds))
             else None)
        else None)"

text \<open>
  An unsigned decimal numeral: digits, an optional point and digits, at least one digit in
  all, an optional exponent, and nothing after it. The result is its exact value.
\<close>

definition parse_decimal :: "pystr \<Rightarrow> rat option" where
  "parse_decimal t =
    (let ip = takeWhile is_digit t;
         r1 = dropWhile is_digit t;
         (fp, r2) = (case r1 of [] \<Rightarrow> ([], [])
            | c # r \<Rightarrow> if c = 46 then (takeWhile is_digit r, dropWhile is_digit r)
                      else ([], r1))
     in if ip = [] \<and> fp = [] then None else
        (case parse_exponent r2 of None \<Rightarrow> None
         | Some ex \<Rightarrow> Some (of_nat (digits_val (ip @ fp)) * pow10 (ex - int (length fp)))))"

text \<open>
  \<open>float(s)\<close> for a str \<open>s\<close>; \<open>None\<close> stands for the \<open>ValueError\<close>. The string
  is an optional sign and then \<open>inf\<close>, \<open>infinity\<close> or \<open>nan\<close> in any case, or a
  numeral, rounded to the nearest double.
\<close>

definition float_of_str :: "pystr \<Rightarrow> pyfloat option" where
  "float_of_str s =
    (let t = c_strip (map to_ascii s) in
     if \<not> underscores_ok 0 t then None else
     (case split_sign (filter (\<lambda>c. c \<noteq> 95) t) of (neg, r) \<Rightarrow>
        if lower r = ascii ''inf'' \<or> lower r = ascii ''infinity''
        then Some (if neg then NInf else PInf)
        else if lower r = ascii ''nan'' then Some NaN
        else (case parse_decimal r of None \<Rightarrow> None
              | Some q \<Rightarrow> Some (rnd (if neg then - q else q)))))"

text \<open>
  \<open>float(x)\<close> for a value of any type; \<open>None\<close> stands for the exception raised
  (\<open>TypeError\<close> for \<open>None\<close>, a list or a dict, \<open>ValueError\<close> for a str that is no
  numeral, \<open>OverflowError\<close> for an int beyond the doubles). Both calls of the program are
  inside a \<open>try\<close> that catches every exception. A bool is an int: \<open>float(True)\<close> is 1.0.
\<close>

fun py_float :: "pyval \<Rightarrow> pyfloat option" where
  "py_float PNone = None"
| "py_float (PBool b) = Some (Fin (if b then 1 else 0))"
| "py_float (PInt n) = (case rnd (of_int n) of Fin q \<Rightarrow> Some (Fin q) | _ \<Rightarrow> None)"
| "py_float (PFloat f) = Some f"
| "py_float (PStr s) = float_of_str s"
| "py_float PList = None"
| "py_float PDict = None"

text \<open>
  \<open>str(n)\<close> for an int: the decimal numeral. The interpreters from 3.11 on refuse to
  print an int of more than \<open>int_max_str_digits\<close> decimal digits, and to read one from
  the file; the model follows the numeral at any length.
\<close>

definition int_max_str_digits :: nat where
  "int_max_str_digits = 4300"

fun nat_digits :: "nat \<Rightarrow> pystr" where
  "nat_digits n = (if n < 10 then [48 + n] else nat_digits (n div 10) @ [48 + n mod 10])"

definition str_int :: "int \<Rightarrow> pystr" where
  "str_int n = (if n < 0 then 45 # nat_digits (nat (- n)) else nat_digits (nat n))"

section \<open>The program\<close>

subsection \<open>Constants\<close>

text \<open>
  The grade labels are the strings U+4F18, U+826F, U+4E2D, U+53CA U+683C and
  U+4E0D U+53CA U+683C, in the order of the source.
\<close>

definition GRADE_MAP :: "(pystr \<times> int) list" where
  "GRADE_MAP =
    [([20248], 95),
     ([33391], 85),
     ([20013], 75),
     ([21450, 26684], 65),
     ([19981, 21450, 26684], 55)]"

text \<open>The two enrollment types that count: U+5FC5 U+4FEE and U+9650 U+9009.\<close>

definition official_types :: "pystr list" where
  "official_types = [[24517, 20462], [38480, 36873]]"

text \<open>
  The tokens that \<open>parse_float_safe\<close> rejects after lowering: U+5F85 U+8BC4 U+6559,
  \<open>na\<close> and \<open>n/a\<close>.
\<close>

definition sentinel_tokens :: "pystr list" where
  "sentinel_tokens = [[24453, 35780, 25945], ascii ''na'', ascii ''n/a'']"

definition comp_names :: "(pystr \<times> pystr) list" where
  "comp_names =
    [(ascii ''QMCJ'', ascii ''QMCJXS''),
     (ascii ''PSCJ'', ascii ''PSCJXS''),
     (ascii ''QZCJ'', ascii ''QZCJXS'')]"

subsection \<open>\<open>extract_json_objects\<close>\<close>

text \<open>\<open>text[a:b]\<close> for indices that are not negative.\<close>

definition slice :: "'a list \<Rightarrow> nat \<Rightarrow> nat \<Rightarrow> 'a list" where
  "slice xs a b = drop a (take b xs)"

text \<open>
  One round of the loop on the character \<open>ch\<close> at index \<open>i\<close>; the state is
  \<open>(objs, brace, start)\<close>. The braces are the code points 123 and 125.
\<close>

fun extract_step :: "pystr \<Rightarrow> pystr list \<times> int \<times> nat option \<Rightarrow> nat \<times> nat
    \<Rightarrow> pystr list \<times> int \<times> nat option" where
  "extract_step text (objs, brace, start) (i, ch) =
    (if ch = 123 then
       (objs, brace + 1, if brace = 0 then Some i else start)
     else if ch = 125 then
       (case start of
          None \<Rightarrow> (objs, brace - 1, start)
        | Some st \<Rightarrow>
            if brace - 1 = 0 then (objs @ [slice text st (i + 1)], brace - 1, None)
            else (objs, brace - 1, start))
     else (objs, brace, start))"

definition extract_json_objects :: "pystr \<Rightarrow> pystr list" where
  "extract_json_objects text =
     fst (foldl (extract_step text) ([], 0, None) (enumerate 0 text))"

subsection \<open>\<open>parse_float_safe\<close>\<close>

text \<open>The function from the string \<open>str(x)\<close> on.\<close>

definition parse_float_str :: "pystr \<Rightarrow> pyfloat option" where
  "parse_float_str t =
    (let s = strip t in
     if s = [] \<or> lower s \<in> set sentinel_tokens then None else float_of_str s)"

text \<open>
  \<open>str(x)\<close> is \<open>x\<close> for a str, the decimal numeral for an int, \<open>True\<close> or
  \<open>False\<close> for a bool. For a float it is the shortest numeral that \<open>float\<close> reads
  back as the same float (\<open>nan\<close>, \<open>inf\<close>, \<open>-inf\<close> for the others), never empty
  and never a sentinel, so the float comes back. For a list or a dict it begins with a
  bracket, and \<open>float\<close> raises.
\<close>

fun parse_float_safe :: "pyval \<Rightarrow> pyfloat option" where
  "parse_float_safe PNone = None"
| "parse_float_safe (PStr s) = parse_float_str s"
| "parse_float_safe (PInt n) = parse_float_str (str_int n)"
| "parse_float_safe (PBool b) = parse_float_str (ascii (if b then ''True'' else ''False''))"
| "parse_float_safe (PFloat f) = Some f"
| "parse_float_safe PList = None"
| "parse_float_safe PDict = None"

subsection \<open>\<open>estimate_zcj_from_row\<close>\<close>

text \<open>
  The third component of the result, in the order of the source:
  \<open>ZCJ present as numeric\<close>, \<open>ZCJ mapped from grade label\<close>,
  \<open>Missing weight <weight_key> for present component <score_key>\<close>,
  \<open>No component scores available to estimate\<close>, \<open>Total weight is zero or invalid\<close>,
  \<open>Estimated from components; total_weight=<total_weight>\<close>.
\<close>

datatype message =
    Present_numeric
  | Mapped_from_label
  | Missing_weight pystr pystr
  | No_components
  | Weight_invalid
  | Estimated pyfloat

text \<open>\<open>isinstance(zcj_raw, str) and zcj_raw.strip() in GRADE_MAP\<close>, with the mapped value.\<close>

fun grade_of :: "pyval \<Rightarrow> int option" where
  "grade_of (PStr s) = map_of GRADE_MAP (strip s)"
| "grade_of v = None"

text \<open>
  The loop over the component pairs; the state is \<open>(total_weight, weighted_sum, have_any)\<close>
  and \<open>Inl\<close> is the return from inside the loop.
\<close>

fun comp_loop :: "row \<Rightarrow> (pystr \<times> pystr) list \<Rightarrow> pyfloat \<times> pyfloat \<times> bool
    \<Rightarrow> message + pyfloat \<times> pyfloat \<times> bool" where
  "comp_loop r [] st = Inr st"
| "comp_loop r ((score_key, weight_key) # rest) (total_weight, weighted_sum, have_any) =
    (case parse_float_safe (dict_get r score_key) of
       None \<Rightarrow> comp_loop r rest (total_weight, weighted_sum, have_any)
     | Some s \<Rightarrow>
        (case parse_float_safe (dict_get r weight_key) of
           None \<Rightarrow> Inl (Missing_weight weight_key score_key)
         | Some w \<Rightarrow>
            comp_loop r rest (fadd total_weight w, fadd weighted_sum (fmul s w), True)))"

definition estimate_zcj_from_row :: "row \<Rightarrow> py_error + pyfloat option \<times> bool \<times> message" where
  "estimate_zcj_from_row r =
    (let zcj_raw = dict_get r (ascii ''ZCJ'') in
     case parse_float_safe zcj_raw of
       Some zcj_val \<Rightarrow> Inr (Some zcj_val, False, Present_numeric)
     | None \<Rightarrow>
        (case grade_of zcj_raw of
           Some g \<Rightarrow>
             (case py_float (PInt g) of
                None \<Rightarrow> Inl OverflowError
              | Some v \<Rightarrow> Inr (Some v, False, Mapped_from_label))
         | None \<Rightarrow>
            (case comp_loop r comp_names (Fin 0, Fin 0, False) of
               Inl msg \<Rightarrow> Inr (None, True, msg)
             | Inr (total_weight, weighted_sum, have_any) \<Rightarrow>
                 if \<not> have_any then Inr (None, True, No_components)
                 else if fle total_weight (Fin 0) then Inr (None, True, Weight_invalid)
                 else (case fdiv weighted_sum total_weight of
                         Inl e \<Rightarrow> Inl e
                       | Inr z_est \<Rightarrow> Inr (Some z_est, True, Estimated total_weight)))))"

subsection \<open>\<open>extract_official_courses\<close>\<close>

record course =
  name :: pyval
  type :: pyval
  score :: pyfloat
  credit :: pyfloat
  estimated :: bool
  estimate_reason :: message

text \<open>The body of the loop for one row; \<open>Inr None\<close> is \<open>continue\<close>.\<close>

definition official_row :: "row \<Rightarrow> py_error + course option" where
  "official_row r =
    (if dict_get r (ascii ''KCXZDM_DISPLAY'') \<notin> set (map PStr official_types) then Inr None
     else
       (case py_float (dict_get r (ascii ''XF'')) of
          None \<Rightarrow> Inr None
        | Some credit_val \<Rightarrow>
            if fle credit_val (Fin 0) then Inr None
            else
              (case estimate_zcj_from_row r of
                 Inl e \<Rightarrow> Inl e
               | Inr (None, is_est, msg) \<Rightarrow> Inr None
               | Inr (Some score_val, is_est, msg) \<Rightarrow>
                   Inr (Some \<lparr>name = dict_get r (ascii ''XSKCM''),
                              type = dict_get r (ascii ''KCXZDM_DISPLAY''),
                              score = score_val,
                              credit = credit_val,
                              estimated = is_est,
                              estimate_reason = msg\<rparr>))))"

fun extract_official_courses :: "row list \<Rightarrow> py_error + course list" where
  "extract_official_courses [] = Inr []"
| "extract_official_courses (r # rows) =
    (case official_row r of
       Inl e \<Rightarrow> Inl e
     | Inr None \<Rightarrow> extract_official_courses rows
     | Inr (Some c) \<Rightarrow>
        (case extract_official_courses rows of
           Inl e \<Rightarrow> Inl e
         | Inr courses \<Rightarrow> Inr (c # courses)))"

subsection \<open>\<open>weighted_avg\<close> and \<open>score_to_gpa\<close>\<close>

text \<open>
  \<open>sum\<close> of a sequence of floats. It starts from the int 0: the sum of no items is that
  0, and 0 plus the first item is the item itself. The further items are added from left
  to right, each addition rounded (the interpreters from 3.12 on also carry the rounding
  error along; one and two items give the same sums there).
\<close>

fun py_sum :: "pyfloat list \<Rightarrow> pyfloat" where
  "py_sum [] = Fin 0"
| "py_sum (x # xs) = foldl fadd x xs"

definition weighted_avg :: "course list \<Rightarrow> py_error + pyfloat option" where
  "weighted_avg courses =
    (let s = py_sum (map (\<lambda>c. fmul (score c) (credit c)) courses);
         w = py_sum (map credit courses)
     in if truthy w then (case fdiv s w of Inl e \<Rightarrow> Inl e | Inr q \<Rightarrow> Inr (Some q))
        else Inr None)"

definition score_to_gpa :: "pyfloat \<Rightarrow> pyfloat" where
  "score_to_gpa x =
    (if fge x (Fin 93) then float_lit 4
     else if fge x (Fin 90) then float_lit (37 / 10)
     else if fge x (Fin 87) then float_lit (33 / 10)
     else if fge x (Fin 83) then float_lit 3
     else if fge x (Fin 80) then float_lit (27 / 10)
     else if fge x (Fin 77) then float_lit (23 / 10)
     else if fge x (Fin 73) then float_lit 2
     else if fge x (Fin 70) then float_lit (17 / 10)
     else if fge x (Fin 67) then float_lit (13 / 10)
     else if fge x (Fin 63) then float_lit 1
     else float_lit 0)"

section \<open>Specification-side definitions\<close>

text \<open>
  The breakpoint table as the specification gives it, from the highest threshold down, and
  its lookup: the value of the first threshold that the score reaches, 0.0 when it reaches
  none.
\<close>

definition gpa_breakpoints :: "(rat \<times> rat) list" where
  "gpa_breakpoints =
    [(93, 4), (90, 37 / 10), (87, 33 / 10), (83, 3), (80, 27 / 10), (77, 23 / 10),
     (73, 2), (70, 17 / 10), (67, 13 / 10), (63, 1)]"

fun table_lookup :: "(rat \<times> rat) list \<Rightarrow> pyfloat \<Rightarrow> pyfloat" where
  "table_lookup [] x = float_lit 0"
| "table_lookup ((t, g) # rest) x = (if fge x (Fin t) then float_lit g else table_lookup rest x)"


text \<open>
  The component pairs of a row as the specification speaks of them: a pair lacks its
  weight when the score parses and the weight does not; the complete pairs are those of
  which both parse, in the order of \<open>comp_names\<close>; the weighted sum and the total weight
  are accumulated over them from 0.0, from left to right.
\<close>

fun lacks_weight :: "row \<Rightarrow> pystr \<times> pystr \<Rightarrow> bool" where
  "lacks_weight r (score_key, weight_key) =
    (parse_float_safe (dict_get r score_key) \<noteq> None
     \<and> parse_float_safe (dict_get r weight_key) = None)"

fun complete_pairs :: "row \<Rightarrow> (pystr \<times> pystr) list \<Rightarrow> (pyfloat \<times> pyfloat) list" where
  "complete_pairs r [] = []"
| "complete_pairs r ((score_key, weight_key) # ks) =
    (case (parse_float_safe (dict_get r score_key), parse_float_safe (dict_get r weight_key)) of
       (Some s, Some w) \<Rightarrow> (s, w) # complete_pairs r ks
     | _ \<Rightarrow> complete_pairs r ks)"

definition weighted_sum_of :: "(pyfloat \<times> pyfloat) list \<Rightarrow> pyfloat" where
  "weighted_sum_of ps = foldl (\<lambda>acc (s, w). fadd acc (fmul s w)) (Fin 0) ps"

definition total_weight_of :: "(pyfloat \<times> pyfloat) list \<Rightarrow> pyfloat" where
  "total_weight_of ps = foldl (\<lambda>acc (s, w). fadd acc w) (Fin 0) ps"

text \<open>
  Brace blocks, as the specification of the extractor speaks of them. A text is free of
  braces when neither brace occurs in it. \<open>balanced d w\<close>: with \<open>d\<close> braces open, the
  braces of \<open>w\<close> close no more than are open and leave none open at its end; every brace
  character counts, wherever it stands. A block is an opening brace, a balanced body and
  a closing brace.
\<close>

definition brace_free :: "pystr \<Rightarrow> bool" where
  "brace_free t = (123 \<notin> set t \<and> 125 \<notin> set t)"

fun balanced :: "nat \<Rightarrow> pystr \<Rightarrow> bool" where
  "balanced d [] = (d = 0)"
| "balanced d (c # w) =
    (if c = 123 then balanced (Suc d) w
     else if c = 125 then (case d of 0 \<Rightarrow> False | Suc d' \<Rightarrow> balanced d' w)
     else balanced d w)"

definition block :: "pystr \<Rightarrow> pystr" where
  "block body = 123 # body @ [125]"

section \<open>Example rows\<close>

text \<open>A final score of 90 with weight 70, a regular score of 80 without a weight.\<close>

definition row_missing_weight :: row where
  "row_missing_weight =
    [ascii ''QMCJ'' \<mapsto> PStr (ascii ''90''), ascii ''QMCJXS'' \<mapsto> PStr (ascii ''70''),
     ascii ''PSCJ'' \<mapsto> PStr (ascii ''80'')]"

text \<open>Two complete pairs, 90 with weight 30 and 80 with weight 20: the weights sum to 50.\<close>

definition row_components :: row where
  "row_components =
    [ascii ''QMCJ'' \<mapsto> PStr (ascii ''90''), ascii ''QMCJXS'' \<mapsto> PStr (ascii ''30''),
     ascii ''PSCJ'' \<mapsto> PStr (ascii ''80''), ascii ''PSCJXS'' \<mapsto> PStr (ascii ''20'')]"

text \<open>A numeric score with blanks around it, beside a component pair.\<close>

definition row_numeric :: row where
  "row_numeric =
    [ascii ''ZCJ'' \<mapsto> PStr (ascii '' 90 ''),
     ascii ''QMCJ'' \<mapsto> PStr (ascii ''10''), ascii ''QMCJXS'' \<mapsto> PStr (ascii ''100'')]"

text \<open>
  The score as a JSON number: the float 88.5, the int 88, and the int \<open>2\<^sup>5\<^sup>3 + 1\<close>, which
  is no double.
\<close>

definition row_float :: row where
  "row_float = [ascii ''ZCJ'' \<mapsto> PFloat (Fin (177 / 2))]"

definition row_int :: row where
  "row_int = [ascii ''ZCJ'' \<mapsto> PInt 88, ascii ''QMCJ'' \<mapsto> PStr (ascii ''10'')]"

definition row_big_int :: row where
  "row_big_int = [ascii ''ZCJ'' \<mapsto> PInt 9007199254740993]"

text \<open>The first grade label after a blank.\<close>

definition row_label :: row where
  "row_label = [ascii ''ZCJ'' \<mapsto> PStr [32, 20248]]"

text \<open>A required course whose credit field reads \<open>nan\<close>, and one whose score does.\<close>

definition row_nan_credit :: row where
  "row_nan_credit =
    [ascii ''KCXZDM_DISPLAY'' \<mapsto> PStr [24517, 20462], ascii ''XF'' \<mapsto> PStr (ascii ''nan''),
     ascii ''ZCJ'' \<mapsto> PStr (ascii ''90'')]"

definition row_nan_score :: row where
  "row_nan_score =
    [ascii ''KCXZDM_DISPLAY'' \<mapsto> PStr [24517, 20462], ascii ''XF'' \<mapsto> PStr (ascii ''3''),
     ascii ''ZCJ'' \<mapsto> PStr (ascii ''nan'')]"

text \<open>A required course of 3 credits with the score 90, and an elective with the same.\<close>

definition row_required :: row where
  "row_required =
    [ascii ''KCXZDM_DISPLAY'' \<mapsto> PStr [24517, 20462], ascii ''XF'' \<mapsto> PStr (ascii ''3''),
     ascii ''ZCJ'' \<mapsto> PStr (ascii ''90'')]"

definition row_elective :: row where
  "row_elective =
    [ascii ''KCXZDM_DISPLAY'' \<mapsto> PStr [36873, 20462], ascii ''XF'' \<mapsto> PStr (ascii ''3''),
     ascii ''ZCJ'' \<mapsto> PStr (ascii ''90'')]"

section \<open>Rounding\<close>

lemma pow2_powi: "pow2 e = 2 powi e"
  by (simp add: pow2_def power_int_def inverse_eq_divide power_one_over)

lemma pow2_pos: "0 < pow2 e"
  by (simp add: pow2_powi)

lemma pow2_add: "pow2 (a + b) = pow2 a * pow2 b"
  by (simp add: pow2_powi power_int_add)

lemma pow2_mono: "a \<le> b \<Longrightarrow> pow2 a \<le> pow2 b"
  by (simp add: pow2_powi power_int_increasing)

lemma pow2_of_int_bounds:
  assumes "0 < a" and "l = bitlen a"
  shows "pow2 (l - 1) \<le> of_int a" and "of_int a < pow2 l"
proof -
  have l1: "1 \<le> l" using assms by (simp add: bitlen_alt_def)
  have b: "2 ^ nat (l - 1) \<le> a" "a < 2 ^ nat l"
    using bitlen_bounds [OF assms(1)] by (simp_all add: assms(2))
  have "rat_of_int (2 ^ nat (l - 1)) \<le> of_int a" using b(1) by (simp only: of_int_le_iff)
  then show "pow2 (l - 1) \<le> of_int a" using l1 by (simp add: pow2_def)
  have "rat_of_int a < of_int (2 ^ nat l)" using b(2) by (simp only: of_int_less_iff)
  then show "of_int a < pow2 l" using l1 by (simp add: pow2_def)
qed

lemma floor_log2_bounds:
  assumes "0 < q"
  shows "pow2 (floor_log2 q) \<le> q \<and> q < pow2 (floor_log2 q + 1)"
proof -
  obtain a b where ab: "quotient_of q = (a, b)" by (cases "quotient_of q")
  have b: "0 < b" using ab quotient_of_denom_pos by blast
  have q: "q = of_int a / of_int b" using ab quotient_of_div by blast
  have a: "0 < a" using assms b q by (simp add: zero_less_divide_iff)
  define la lb where "la = bitlen a" and "lb = bitlen b"
  note ra = pow2_of_int_bounds [OF a la_def]
  note rb = pow2_of_int_bounds [OF b lb_def]
  define d where "d = la - lb"
  have bpos: "0 < rat_of_int b" using b by simp
  have up: "q < pow2 (d + 1)"
  proof -
    have "of_int a < pow2 (d + 1) * pow2 (lb - 1)"
      using ra(2) by (simp add: pow2_add [symmetric] d_def)
    also have "\<dots> \<le> pow2 (d + 1) * of_int b"
      using rb(1) pow2_pos [of "d + 1"] by simp
    finally show ?thesis using bpos by (simp add: q pos_divide_less_eq)
  qed
  have low: "pow2 (d - 1) \<le> q"
  proof -
    have "pow2 (d - 1) * of_int b \<le> pow2 (d - 1) * pow2 lb"
      using rb(2) pow2_pos [of "d - 1"] by simp
    also have "\<dots> = pow2 (la - 1)" by (simp add: pow2_add [symmetric] d_def)
    also have "\<dots> \<le> of_int a" by (rule ra(1))
    finally show ?thesis using bpos by (simp add: q pos_le_divide_eq)
  qed
  have fl: "floor_log2 q = (if pow2 d \<le> q then d else d - 1)"
    by (simp add: floor_log2_def ab Let_def d_def la_def lb_def)
  show ?thesis using up low by (simp add: fl)
qed

lemma floor_log2_unique:
  assumes "0 < q" "pow2 e \<le> q" "q < pow2 (e + 1)"
  shows "floor_log2 q = e"
proof -
  let ?f = "floor_log2 q"
  have b: "pow2 ?f \<le> q" "q < pow2 (?f + 1)" using floor_log2_bounds [OF assms(1)] by simp_all
  have "\<not> e + 1 \<le> ?f"
  proof
    assume "e + 1 \<le> ?f"
    then have "pow2 (e + 1) \<le> pow2 ?f" by (rule pow2_mono)
    then show False using b(1) assms(3) by simp
  qed
  moreover have "\<not> ?f + 1 \<le> e"
  proof
    assume "?f + 1 \<le> e"
    then have "pow2 (?f + 1) \<le> pow2 e" by (rule pow2_mono)
    then show False using b(2) assms(2) by simp
  qed
  ultimately show ?thesis by simp
qed

lemma round_half_even_near:
  assumes "of_int n - 1 / 2 < q" "q < of_int n + 1 / 2"
  shows "round_half_even q = n"
proof (cases "of_int n \<le> q")
  case True
  then have "\<lfloor>q\<rfloor> = n" using assms(2) by (simp add: floor_unique)
  then show ?thesis using assms(2) by (simp add: round_half_even_def Let_def)
next
  case False
  then have f: "\<lfloor>q\<rfloor> = n - 1" using assms(1) by (simp add: floor_unique)
  show ?thesis using assms(1) False by (simp add: round_half_even_def Let_def f)
qed

lemma round_half_even_of_int: "round_half_even (of_int n) = n"
  by (rule round_half_even_near) simp_all

lemma round_half_even_tie:
  "round_half_even ((2 * of_int f + 1) / 2) = (if even f then f else f + 1)"
proof -
  have "\<lfloor>(2 * rat_of_int f + 1) / 2\<rfloor> = f"
    by (rule floor_unique) (simp_all add: field_simps)
  then show ?thesis
    by (simp add: round_half_even_def Let_def field_simps)
qed

text \<open>Rounding at a given input, from the binade \<open>e\<close> of the input and the multiple \<open>n\<close>.\<close>

lemma rnd_eval:
  assumes "x \<noteq> 0" "pow2 e \<le> \<bar>x\<bar>" "\<bar>x\<bar> < pow2 (e + 1)"
    and "round_half_even (x / pow2 (max e (- 1022) - 52)) = n"
    and "y = of_int n * pow2 (max e (- 1022) - 52)"
    and "y < pow2 1024" "- pow2 1024 < y"
  shows "rnd x = Fin y"
proof -
  have "floor_log2 \<bar>x\<bar> = e" using assms(1-3) by (simp add: floor_log2_unique)
  then show ?thesis using assms(1,4-7) by (simp add: rnd_def Let_def)
qed

text \<open>The integers below \<open>2\<^sup>5\<^sup>3\<close> in size are doubles.\<close>

lemma rnd_of_int:
  assumes "\<bar>n\<bar> < 2 ^ 53"
  shows "rnd (of_int n) = Fin (of_int n)"
proof (cases "n = 0")
  case True
  then show ?thesis by (simp add: rnd_def)
next
  case False
  define x :: rat where "x = of_int n"
  define e where "e = floor_log2 \<bar>x\<bar>"
  have x0: "x \<noteq> 0" "0 < \<bar>x\<bar>" using False by (simp_all add: x_def)
  have b: "pow2 e \<le> \<bar>x\<bar>" "\<bar>x\<bar> < pow2 (e + 1)"
    using floor_log2_bounds [OF x0(2)] by (simp_all add: e_def)
  have x1: "1 \<le> \<bar>x\<bar>" using False by (simp add: x_def flip: of_int_abs)
  have x53: "\<bar>x\<bar> < pow2 53"
  proof -
    have "rat_of_int \<bar>n\<bar> < of_int (2 ^ 53)" using assms by (simp only: of_int_less_iff)
    then show ?thesis by (simp add: x_def pow2_def)
  qed
  have e0: "0 \<le> e"
  proof (rule ccontr)
    assume "\<not> 0 \<le> e"
    then have "pow2 (e + 1) \<le> pow2 0" by (intro pow2_mono) simp
    then show False using b(2) x1 by (simp add: pow2_def)
  qed
  have e52: "e \<le> 52"
  proof (rule ccontr)
    assume "\<not> e \<le> 52"
    then have "pow2 53 \<le> pow2 e" by (intro pow2_mono) simp
    then show False using b(1) x53 by simp
  qed
  define k where "k = nat (52 - e)"
  have u: "pow2 (max e (- 1022) - 52) = 1 / 2 ^ k"
    using e0 e52 by (cases "e = 52") (simp_all add: pow2_def k_def max_def)
  have q: "x / pow2 (max e (- 1022) - 52) = of_int (n * 2 ^ k)"
    by (simp add: u x_def)
  have r: "round_half_even (x / pow2 (max e (- 1022) - 52)) = n * 2 ^ k"
    by (simp only: q round_half_even_of_int)
  have y: "x = of_int (n * 2 ^ k) * pow2 (max e (- 1022) - 52)"
    by (simp add: u x_def)
  have "pow2 53 \<le> pow2 1024" by (intro pow2_mono) simp
  then have lim: "x < pow2 1024" "- pow2 1024 < x" using x53 by simp_all
  show ?thesis using rnd_eval [OF x0(1) b r y lim] by (simp add: x_def)
qed

lemma float_lit_of_int: "\<bar>n\<bar> < 2 ^ 53 \<Longrightarrow> float_lit (of_int n) = Fin (of_int n)"
  by (simp add: float_lit_def rnd_of_int)

lemma float_lit_ints:
  "float_lit 0 = Fin 0" "float_lit 1 = Fin 1" "float_lit 2 = Fin 2"
  "float_lit 3 = Fin 3" "float_lit 4 = Fin 4"
  using float_lit_of_int [of 0] float_lit_of_int [of 1] float_lit_of_int [of 2]
    float_lit_of_int [of 3] float_lit_of_int [of 4]
  by simp_all

lemma float_lit_37: "float_lit (37 / 10) = Fin (4165829655317709 / 1125899906842624)"
  unfolding float_lit_def
  by (rule rnd_eval [where e = 1 and n = 8331659310635418])
     (simp_all add: pow2_def round_half_even_near)

lemma float_lit_33: "float_lit (33 / 10) = Fin (3715469692580659 / 1125899906842624)"
  unfolding float_lit_def
  by (rule rnd_eval [where e = 1 and n = 7430939385161318])
     (simp_all add: pow2_def round_half_even_near)

lemma float_lit_27: "float_lit (27 / 10) = Fin (3039929748475085 / 1125899906842624)"
  unfolding float_lit_def
  by (rule rnd_eval [where e = 1 and n = 6079859496950170])
     (simp_all add: pow2_def round_half_even_near)

lemma float_lit_23: "float_lit (23 / 10) = Fin (2589569785738035 / 1125899906842624)"
  unfolding float_lit_def
  by (rule rnd_eval [where e = 1 and n = 5179139571476070])
     (simp_all add: pow2_def round_half_even_near)

lemma float_lit_17: "float_lit (17 / 10) = Fin (7656119366529843 / 4503599627370496)"
  unfolding float_lit_def
  by (rule rnd_eval [where e = 0 and n = 7656119366529843])
     (simp_all add: pow2_def round_half_even_near)

lemma float_lit_13: "float_lit (13 / 10) = Fin (5854679515581645 / 4503599627370496)"
  unfolding float_lit_def
  by (rule rnd_eval [where e = 0 and n = 5854679515581645])
     (simp_all add: pow2_def round_half_even_near)

lemma float_lit_92999: "float_lit (92999 / 1000) = Fin (3272111419889287 / 35184372088832)"
  unfolding float_lit_def
  by (rule rnd_eval [where e = 6 and n = 6544222839778574])
     (simp_all add: pow2_def round_half_even_near)

lemmas gpa_values = float_lit_ints float_lit_37 float_lit_33 float_lit_27 float_lit_23
  float_lit_17 float_lit_13

section \<open>Comparisons\<close>

lemma fle_trans: "fle a b \<Longrightarrow> fle b c \<Longrightarrow> fle a c"
  by (cases a; cases b; cases c) simp_all

section \<open>\<open>score_to_gpa\<close>\<close>

lemma fge_up: "fle a b \<Longrightarrow> fge a t \<Longrightarrow> fge b t"
  by (auto simp: fge_def intro: fle_trans)

lemma table_lookup_range:
  "table_lookup tb x = float_lit 0 \<or> table_lookup tb x \<in> float_lit ` snd ` set tb"
  by (induction tb x rule: table_lookup.induct) auto

lemma table_lookup_mono:
  assumes "fle a b"
    and "sorted_wrt (\<lambda>p q. fle (float_lit (snd q)) (float_lit (snd p))) tb"
    and "list_all (\<lambda>p. fle (float_lit 0) (float_lit (snd p)) \<and> fle (float_lit (snd p)) (float_lit (snd p))) tb"
    and "fle (float_lit 0) (float_lit 0)"
  shows "fle (table_lookup tb a) (table_lookup tb b)"
  using assms(2,3)
proof (induction tb)
  case Nil
  then show ?case using assms(4) by simp
next
  case (Cons p tb)
  obtain t g where p: "p = (t, g)" by (cases p)
  show ?case
  proof (cases "fge a (Fin t)")
    case True
    then have "fge b (Fin t)" using assms(1) by (rule fge_up [rotated])
    then show ?thesis using True Cons.prems(2) by (simp add: p)
  next
    case False
    show ?thesis
    proof (cases "fge b (Fin t)")
      case True
      have "fle (table_lookup tb a) (float_lit g)"
        using table_lookup_range [of tb a] Cons.prems by (auto simp: p)
      then show ?thesis using True False by (simp add: p)
    next
      case b: False
      show ?thesis using False b Cons by (simp add: p)
    qed
  qed
qed

lemma score_to_gpa_lookup: "score_to_gpa x = table_lookup gpa_breakpoints x"
  by (simp add: score_to_gpa_def gpa_breakpoints_def)


lemma score_to_gpa_mono: "fle a b \<Longrightarrow> fle (score_to_gpa a) (score_to_gpa b)"
  unfolding score_to_gpa_lookup
  by (rule table_lookup_mono) (simp_all add: gpa_breakpoints_def gpa_values)

lemma between_Fin: "fge x (Fin lo) \<Longrightarrow> flt x (Fin hi) \<Longrightarrow> \<exists>q. x = Fin q \<and> lo \<le> q \<and> q < hi"
  by (cases x) (simp_all add: fge_def)

lemma score_to_gpa_NaN: "score_to_gpa NaN = float_lit 0"
  by (simp add: score_to_gpa_def fge_def)

text \<open>
  C6: \<open>score_to_gpa\<close> is the breakpoint table read from the highest threshold down. It is
  constant on each interval between two neighbouring thresholds, the lower one included and
  the upper one excluded, so that a threshold itself has the grade point of the higher tier
  and everything strictly below it the next one: 93.0 gives 4.0 and 92.999 gives 3.7.
  Below 63, and for a NaN, the grade point is 0.0.
\<close>

theorem score_to_gpa_breakpoints:
  "score_to_gpa x = table_lookup gpa_breakpoints x
   \<and> (fge x (Fin 93) \<longrightarrow> score_to_gpa x = float_lit 4)
   \<and> (fge x (Fin 90) \<and> flt x (Fin 93) \<longrightarrow> score_to_gpa x = float_lit (37 / 10))
   \<and> (fge x (Fin 87) \<and> flt x (Fin 90) \<longrightarrow> score_to_gpa x = float_lit (33 / 10))
   \<and> (fge x (Fin 83) \<and> flt x (Fin 87) \<longrightarrow> score_to_gpa x = float_lit 3)
   \<and> (fge x (Fin 80) \<and> flt x (Fin 83) \<longrightarrow> score_to_gpa x = float_lit (27 / 10))
   \<and> (fge x (Fin 77) \<and> flt x (Fin 80) \<longrightarrow> score_to_gpa x = float_lit (23 / 10))
   \<and> (fge x (Fin 73) \<and> flt x (Fin 77) \<longrightarrow> score_to_gpa x = float_lit 2)
   \<and> (fge x (Fin 70) \<and> flt x (Fin 73) \<longrightarrow> score_to_gpa x = float_lit (17 / 10))
   \<and> (fge x (Fin 67) \<and> flt x (Fin 70) \<longrightarrow> score_to_gpa x = float_lit (13 / 10))
   \<and> (fge x (Fin 63) \<and> flt x (Fin 67) \<longrightarrow> score_to_gpa x = float_lit 1)
   \<and> (flt x (Fin 63) \<or> x = NaN \<longrightarrow> score_to_gpa x = float_lit 0)
   \<and> score_to_gpa (float_lit 93) = float_lit 4
   \<and> score_to_gpa (float_lit (92999 / 1000)) = float_lit (37 / 10)"
proof -
  have 93: "float_lit 93 = Fin 93"
    using float_lit_of_int [of 93] by simp
  have "score_to_gpa (float_lit 93) = float_lit 4"
    by (simp add: score_to_gpa_def 93 fge_def)
  moreover have "score_to_gpa (float_lit (92999 / 1000)) = float_lit (37 / 10)"
    by (simp add: score_to_gpa_def float_lit_92999 fge_def)
  moreover have "fge x (Fin 90) \<and> flt x (Fin 93) \<longrightarrow> score_to_gpa x = float_lit (37 / 10)"
    by (cases x) (simp_all add: score_to_gpa_def fge_def)
  moreover have "fge x (Fin 87) \<and> flt x (Fin 90) \<longrightarrow> score_to_gpa x = float_lit (33 / 10)"
    by (cases x) (simp_all add: score_to_gpa_def fge_def)
  moreover have "fge x (Fin 83) \<and> flt x (Fin 87) \<longrightarrow> score_to_gpa x = float_lit 3"
    by (cases x) (simp_all add: score_to_gpa_def fge_def)
  moreover have "fge x (Fin 80) \<and> flt x (Fin 83) \<longrightarrow> score_to_gpa x = float_lit (27 / 10)"
    by (cases x) (simp_all add: score_to_gpa_def fge_def)
  moreover have "fge x (Fin 77) \<and> flt x (Fin 80) \<longrightarrow> score_to_gpa x = float_lit (23 / 10)"
    by (cases x) (simp_all add: score_to_gpa_def fge_def)
  moreover have "fge x (Fin 73) \<and> flt x (Fin 77) \<longrightarrow> score_to_gpa x = float_lit 2"
    by (cases x) (simp_all add: score_to_gpa_def fge_def)
  moreover have "fge x (Fin 70) \<and> flt x (Fin 73) \<longrightarrow> score_to_gpa x = float_lit (17 / 10)"
    by (cases x) (simp_all add: score_to_gpa_def fge_def)
  moreover have "fge x (Fin 67) \<and> flt x (Fin 70) \<longrightarrow> score_to_gpa x = float_lit (13 / 10)"
    by (cases x) (simp_all add: score_to_gpa_def fge_def)
  moreover have "fge x (Fin 63) \<and> flt x (Fin 67) \<longrightarrow> score_to_gpa x = float_lit 1"
    by (cases x) (simp_all add: score_to_gpa_def fge_def)
  moreover have "fge x (Fin 93) \<longrightarrow> score_to_gpa x = float_lit 4"
    by (simp add: score_to_gpa_def)
  moreover have "flt x (Fin 63) \<or> x = NaN \<longrightarrow> score_to_gpa x = float_lit 0"
    by (cases x) (auto simp: score_to_gpa_def fge_def)
  ultimately show ?thesis
    by (simp add: score_to_gpa_lookup [symmetric])
qed

theorem score_to_gpa_breakpoints_witness:
  "fge (Fin 95) (Fin 93) \<and> score_to_gpa (Fin 95) = float_lit 4
   \<and> fge (Fin 90) (Fin 90) \<and> flt (Fin 90) (Fin 93)
   \<and> score_to_gpa (Fin 90) = float_lit (37 / 10)
   \<and> fge (Fin 64) (Fin 63) \<and> flt (Fin 64) (Fin 67) \<and> score_to_gpa (Fin 64) = float_lit 1
   \<and> flt (Fin 62) (Fin 63) \<and> score_to_gpa (Fin 62) = float_lit 0"
  using score_to_gpa_breakpoints [of "Fin 95"] score_to_gpa_breakpoints [of "Fin 90"]
    score_to_gpa_breakpoints [of "Fin 64"] score_to_gpa_breakpoints [of "Fin 62"]
  by (simp add: fge_def score_to_gpa_lookup [symmetric])

text \<open>
  C10: \<open>score_to_gpa\<close> has a value for every float and is monotone: a score that is at
  most another has a grade point that is at most the other's. The value is one of eleven
  grade points, which are pairwise different, also for a score outside 0 to 100, an infinity
  or a NaN.
\<close>

theorem score_to_gpa_monotone:
  "(fle a b \<longrightarrow> fle (score_to_gpa a) (score_to_gpa b))
   \<and> score_to_gpa a \<in> set
       [float_lit 0, float_lit 1, float_lit (13 / 10), float_lit (17 / 10), float_lit 2,
        float_lit (23 / 10), float_lit (27 / 10), float_lit 3, float_lit (33 / 10),
        float_lit (37 / 10), float_lit 4]
   \<and> distinct
       [float_lit 0, float_lit 1, float_lit (13 / 10), float_lit (17 / 10), float_lit 2,
        float_lit (23 / 10), float_lit (27 / 10), float_lit 3, float_lit (33 / 10),
        float_lit (37 / 10), float_lit 4]"
proof (intro conjI impI)
  show "fle (score_to_gpa a) (score_to_gpa b)" if "fle a b"
    using that by (rule score_to_gpa_mono)
  show "score_to_gpa a \<in> set
       [float_lit 0, float_lit 1, float_lit (13 / 10), float_lit (17 / 10), float_lit 2,
        float_lit (23 / 10), float_lit (27 / 10), float_lit 3, float_lit (33 / 10),
        float_lit (37 / 10), float_lit 4]"
    by (simp add: score_to_gpa_def)
  show "distinct
       [float_lit 0, float_lit 1, float_lit (13 / 10), float_lit (17 / 10), float_lit 2,
        float_lit (23 / 10), float_lit (27 / 10), float_lit 3, float_lit (33 / 10),
        float_lit (37 / 10), float_lit 4]"
    by (simp add: gpa_values)
qed

theorem score_to_gpa_monotone_witness:
  "fle (Fin 85) (Fin 95) \<and> fle (score_to_gpa (Fin 85)) (score_to_gpa (Fin 95))
   \<and> fle (Fin (- 5)) (Fin 200) \<and> fle (score_to_gpa (Fin (- 5))) (score_to_gpa (Fin 200))"
  using score_to_gpa_monotone [of "Fin 85" "Fin 95"] score_to_gpa_monotone [of "Fin (- 5)" "Fin 200"]
  by simp

section \<open>\<open>weighted_avg\<close>\<close>

lemma rnd_numeral: "numeral k < (2 ^ 53 :: int) \<Longrightarrow> rnd (numeral k) = Fin (numeral k)"
  using rnd_of_int [of "numeral k"] by simp

lemma fdiv_nonzero: "y \<noteq> Fin 0 \<Longrightarrow> \<exists>q. fdiv x y = Inr q"
  by (cases x; cases y) simp_all

lemma fmul_one: "valid_float x \<Longrightarrow> fmul x (Fin 1) = x"
  by (cases x) (simp_all add: is_double_def inf_of_sign_def)

lemma fdiv_one: "valid_float x \<Longrightarrow> fdiv x (Fin 1) = Inr x"
  by (cases x) (simp_all add: is_double_def inf_of_sign_def)

lemma weighted_avg_eq:
  "weighted_avg cs =
    (if py_sum (map credit cs) = Fin 0 then Inr None
     else map_sum id Some
       (fdiv (py_sum (map (\<lambda>c. fmul (score c) (credit c)) cs)) (py_sum (map credit cs))))"
  by (simp add: weighted_avg_def Let_def truthy_def split: sum.split)

text \<open>
  C7, amended: for every list of courses \<open>weighted_avg\<close> raises nothing. It gives the
  undefined marker exactly when the sum of the credits is zero, as it is for the empty list,
  and otherwise the float quotient of the sum of the products by the sum of the credits. For
  one course that is the rounded product divided by the credit, rounded again; it is the
  score itself when the credit is 1.0.
\<close>

theorem weighted_avg_quotient:
  "(weighted_avg cs = Inr None \<longleftrightarrow> py_sum (map credit cs) = Fin 0)
   \<and> (py_sum (map credit cs) \<noteq> Fin 0 \<longrightarrow>
        (\<exists>q. fdiv (py_sum (map (\<lambda>c. fmul (score c) (credit c)) cs)) (py_sum (map credit cs))
               = Inr q
            \<and> weighted_avg cs = Inr (Some q)))
   \<and> weighted_avg [] = Inr None
   \<and> (credit c \<noteq> Fin 0 \<longrightarrow>
        (\<exists>q. fdiv (fmul (score c) (credit c)) (credit c) = Inr q
            \<and> weighted_avg [c] = Inr (Some q)))
   \<and> (valid_float (score c) \<and> credit c = Fin 1 \<longrightarrow> weighted_avg [c] = Inr (Some (score c)))"
proof (intro conjI impI)
  let ?w = "py_sum (map credit cs)"
  let ?s = "py_sum (map (\<lambda>c. fmul (score c) (credit c)) cs)"
  show "weighted_avg cs = Inr None \<longleftrightarrow> ?w = Fin 0"
    using fdiv_nonzero [of ?w ?s] by (auto simp: weighted_avg_eq)
  show "\<exists>q. fdiv ?s ?w = Inr q \<and> weighted_avg cs = Inr (Some q)" if "?w \<noteq> Fin 0"
    using fdiv_nonzero [OF that, of ?s] that by (auto simp: weighted_avg_eq)
  show "weighted_avg [] = Inr None"
    by (simp add: weighted_avg_eq)
  show "\<exists>q. fdiv (fmul (score c) (credit c)) (credit c) = Inr q \<and> weighted_avg [c] = Inr (Some q)"
    if "credit c \<noteq> Fin 0"
    using fdiv_nonzero [OF that, of "fmul (score c) (credit c)"] that
    by (auto simp: weighted_avg_eq)
  show "weighted_avg [c] = Inr (Some (score c))" if h: "valid_float (score c) \<and> credit c = Fin 1"
  proof -
    have v: "valid_float (score c)" and c1: "credit c = Fin 1" using h by simp_all
    show ?thesis
      by (simp add: weighted_avg_eq c1 fmul_one [OF v] fdiv_one [OF v] del: fdiv.simps fmul.simps)
  qed
qed

theorem weighted_avg_quotient_witness:
  "py_sum (map credit
       [\<lparr>name = PNone, type = PNone, score = Fin 87, credit = Fin 3, estimated = True,
          estimate_reason = Estimated (Fin 100)\<rparr>,
        \<lparr>name = PNone, type = PNone, score = Fin 95, credit = Fin 2, estimated = False,
          estimate_reason = Mapped_from_label\<rparr>]) \<noteq> Fin 0
   \<and> weighted_avg
       [\<lparr>name = PNone, type = PNone, score = Fin 87, credit = Fin 3, estimated = True,
          estimate_reason = Estimated (Fin 100)\<rparr>,
        \<lparr>name = PNone, type = PNone, score = Fin 95, credit = Fin 2, estimated = False,
          estimate_reason = Mapped_from_label\<rparr>] = Inr (Some (float_lit (902 / 10)))
   \<and> valid_float (Fin 87)
   \<and> weighted_avg
       [\<lparr>name = PNone, type = PNone, score = Fin 87, credit = Fin 1, estimated = False,
          estimate_reason = Present_numeric\<rparr>] = Inr (Some (Fin 87))"
  using weighted_avg_quotient
    [of "[\<lparr>name = PNone, type = PNone, score = Fin 87, credit = Fin 3, estimated = True,
            estimate_reason = Estimated (Fin 100)\<rparr>,
          \<lparr>name = PNone, type = PNone, score = Fin 95, credit = Fin 2, estimated = False,
            estimate_reason = Mapped_from_label\<rparr>]"
        "\<lparr>name = PNone, type = PNone, score = Fin 87, credit = Fin 1, estimated = False,
            estimate_reason = Present_numeric\<rparr>"]
  by (simp add: rnd_numeral float_lit_def is_double_def)

lemma float_lit_602: "float_lit (602 / 10) = Fin (4236198399495373 / 70368744177664)"
  unfolding float_lit_def
  by (rule rnd_eval [where e = 5 and n = 8472396798990746])
     (simp_all add: pow2_def round_half_even_near)

lemma double_602: "rnd (4236198399495373 / 70368744177664) = Fin (4236198399495373 / 70368744177664)"
  by (rule rnd_eval [where e = 5 and n = 8472396798990746])
     (simp_all add: pow2_def round_half_even_of_int [of 8472396798990746, simplified])

text \<open>The product lies half way between two doubles and goes to the even one.\<close>

lemma product_602_3:
  "rnd (4236198399495373 / 70368744177664 * 3) = Fin (1588574399810765 / 8796093022208)"
  by (rule rnd_eval [where e = 7 and n = 6354297599243060])
     (simp_all add: pow2_def round_half_even_tie [of 6354297599243059, simplified])

lemma quotient_602_3:
  "rnd (1588574399810765 / 8796093022208 / 3) = Fin (8472396798990747 / 140737488355328)"
  by (rule rnd_eval [where e = 5 and n = 8472396798990747])
     (simp_all add: pow2_def round_half_even_near)

text \<open>
  C7 as stated fails for one course of score 60.2 and credit 3.0: the product is rounded to
  180.60000000000002 and the quotient to 60.20000000000001.
\<close>

theorem weighted_avg_singleton_counterexample:
  "fgt (Fin 3) (Fin 0) \<and> valid_float (Fin 3) \<and> valid_float (float_lit (602 / 10))
   \<and> weighted_avg
       [\<lparr>name = PNone, type = PNone, score = float_lit (602 / 10), credit = Fin 3,
          estimated = False, estimate_reason = Present_numeric\<rparr>]
       = Inr (Some (Fin (8472396798990747 / 140737488355328)))
   \<and> Fin (8472396798990747 / 140737488355328) \<noteq> float_lit (602 / 10)"
  unfolding float_lit_602
  by (simp add: weighted_avg_eq double_602 product_602_3 [simplified]
      quotient_602_3 [simplified] fgt_def is_double_def rnd_numeral)

section \<open>\<open>estimate_zcj_from_row\<close>\<close>

lemmas float_eval = float_of_str_def c_strip_def to_ascii_def is_space_def decimal_digit_def
  decimal_zeros_def c_isspace_def is_digit_def split_sign_def lower_def ascii_def
  parse_decimal_def parse_exponent_def digits_val_def pow10_def Let_def

lemmas parse_eval = parse_float_str_def strip_def sentinel_tokens_def float_eval rnd_numeral

lemmas row_eval = dict_get_def comp_names_def ascii_def

text \<open>
  The decimal numeral of an int is read back by \<open>float\<close> as the double nearest to the
  int: \<open>parse_float_safe\<close> of an int is that double.
\<close>

lemma nat_digits_all: "list_all is_digit (nat_digits n)"
proof (induction n rule: nat_digits.induct)
  case (1 n)
  show ?case
  proof (cases "n < 10")
    case True
    then show ?thesis by (subst nat_digits.simps) (simp add: is_digit_def)
  next
    case False
    have "n mod 10 < 10" by simp
    then have "is_digit (48 + n mod 10)" unfolding is_digit_def by linarith
    then show ?thesis using False 1 by (subst nat_digits.simps) simp
  qed
qed

lemma nat_digits_nonempty: "nat_digits n \<noteq> []"
  by (subst nat_digits.simps) simp

lemma digits_val_snoc: "digits_val (ds @ [c]) = digits_val ds * 10 + (c - 48)"
  by (simp add: digits_val_def)

lemma digits_val_nat_digits: "digits_val (nat_digits n) = n"
proof (induction n rule: nat_digits.induct)
  case (1 n)
  show ?case
  proof (cases "n < 10")
    case True
    then show ?thesis by (subst nat_digits.simps) (simp add: digits_val_def)
  next
    case False
    then show ?thesis using 1 by (subst nat_digits.simps) (simp add: digits_val_snoc)
  qed
qed

lemma digit_facts:
  assumes "is_digit c"
  shows "c < 127" "\<not> is_space c" "\<not> c_isspace c" "c \<noteq> 95" "c \<noteq> 45" "c \<noteq> 43"
    "to_ascii c = c" "\<not> (65 \<le> c \<and> c \<le> 90)" "c \<noteq> 46"
  using assms by (auto simp: is_digit_def is_space_def c_isspace_def to_ascii_def)

lemma strip_keep:
  assumes "s \<noteq> []" "\<not> P (hd s)" "\<not> P (last s)"
  shows "rev (dropWhile P (rev (dropWhile P s))) = s"
proof -
  have a: "dropWhile P s = s" using assms(1,2) by (cases s) simp_all
  have "rev s \<noteq> []" "\<not> P (hd (rev s))" using assms(1,3) by (simp_all add: hd_rev)
  then have "dropWhile P (rev s) = rev s" by (cases "rev s") simp_all
  then show ?thesis by (simp add: a)
qed

lemma digits_map_to_ascii: "list_all is_digit ds \<Longrightarrow> map to_ascii ds = ds"
  by (induction ds) (simp_all add: digit_facts)

lemma digits_no_underscore: "list_all is_digit ds \<Longrightarrow> filter (\<lambda>c. c \<noteq> 95) ds = ds"
  by (induction ds) (simp_all add: digit_facts)

lemma digits_lower: "list_all is_digit ds \<Longrightarrow> lower ds = ds"
  by (induction ds) (simp_all add: lower_def digit_facts)

lemma digits_underscores_ok: "list_all is_digit ds \<Longrightarrow> prev \<noteq> 95 \<Longrightarrow> underscores_ok prev ds"
  by (induction ds arbitrary: prev) (simp_all add: digit_facts)

lemma digits_takeWhile: "list_all is_digit ds \<Longrightarrow> takeWhile is_digit ds = ds"
  by (induction ds) simp_all

lemma digits_dropWhile: "list_all is_digit ds \<Longrightarrow> dropWhile is_digit ds = []"
  by (induction ds) simp_all

lemma parse_decimal_digits:
  assumes "list_all is_digit ds" "ds \<noteq> []"
  shows "parse_decimal ds = Some (of_nat (digits_val ds))"
  using assms
  by (simp add: parse_decimal_def digits_takeWhile digits_dropWhile parse_exponent_def pow10_def)


lemma digits_not_word:
  assumes "list_all is_digit ds" "ds \<noteq> []"
  shows "ds \<noteq> ascii ''inf''" "ds \<noteq> ascii ''infinity''" "ds \<noteq> ascii ''nan''"
    "ds \<notin> set sentinel_tokens"
  using assms by (cases ds; auto simp: ascii_def is_digit_def sentinel_tokens_def)+

lemma float_of_str_digits:
  assumes "list_all is_digit ds" "ds \<noteq> []"
  shows "float_of_str ds = Some (rnd (of_nat (digits_val ds)))"
    and "float_of_str (45 # ds) = Some (rnd (- of_nat (digits_val ds)))"
proof -
  have hd: "is_digit (hd ds)" and last: "is_digit (last ds)"
    using assms by (simp_all add: list_all_iff)
  have c1: "c_strip ds = ds"
    unfolding c_strip_def using assms(2) hd last by (intro strip_keep) (simp_all add: digit_facts)
  have c2: "c_strip (45 # ds) = 45 # ds"
    unfolding c_strip_def
  proof (rule strip_keep)
    show "45 # ds \<noteq> []" by simp
    show "\<not> c_isspace (hd (45 # ds))" by (simp add: c_isspace_def)
    show "\<not> c_isspace (last (45 # ds))" using assms(2) digit_facts(3) [OF last] by simp
  qed
  have s1: "split_sign ds = (False, ds)"
    using assms(2) hd by (cases ds) (simp_all add: split_sign_def digit_facts)
  have s2: "split_sign (45 # ds) = (True, ds)"
    by (simp add: split_sign_def)
  note w = digits_not_word [OF assms]
  show "float_of_str ds = Some (rnd (of_nat (digits_val ds)))"
    using assms w
    by (simp add: float_of_str_def digits_map_to_ascii c1 digits_underscores_ok
        digits_no_underscore s1 digits_lower parse_decimal_digits)
  have m: "map to_ascii (45 # ds) = 45 # ds"
    using assms(1) by (simp add: digits_map_to_ascii to_ascii_def)
  have u: "underscores_ok 0 (45 # ds)"
    using assms(1) by (simp add: digits_underscores_ok)
  show "float_of_str (45 # ds) = Some (rnd (- of_nat (digits_val ds)))"
    using assms w
    unfolding float_of_str_def m c2 Let_def
    by (simp add: u digits_no_underscore s2 digits_lower parse_decimal_digits
        del: underscores_ok.simps)
qed

lemma parse_float_str_digits:
  assumes "list_all is_digit ds" "ds \<noteq> []"
  shows "parse_float_str ds = Some (rnd (of_nat (digits_val ds)))"
    and "parse_float_str (45 # ds) = Some (rnd (- of_nat (digits_val ds)))"
proof -
  have hd: "is_digit (hd ds)" and last: "is_digit (last ds)"
    using assms by (simp_all add: list_all_iff)
  have t1: "strip ds = ds"
    unfolding strip_def using assms(2) hd last by (intro strip_keep) (simp_all add: digit_facts)
  have t2: "strip (45 # ds) = 45 # ds"
    unfolding strip_def
  proof (rule strip_keep)
    show "45 # ds \<noteq> []" by simp
    show "\<not> is_space (hd (45 # ds))" by (simp add: is_space_def)
    show "\<not> is_space (last (45 # ds))" using assms(2) digit_facts(2) [OF last] by simp
  qed
  have l2: "lower (45 # ds) = 45 # ds"
    using assms(1) digits_lower [of ds] by (simp add: lower_def)
  have n2: "45 # ds \<notin> set sentinel_tokens"
    by (simp add: sentinel_tokens_def ascii_def)
  show "parse_float_str ds = Some (rnd (of_nat (digits_val ds)))"
    using assms digits_not_word(4) [OF assms]
    by (simp add: parse_float_str_def t1 digits_lower float_of_str_digits)
  show "parse_float_str (45 # ds) = Some (rnd (- of_nat (digits_val ds)))"
    using assms n2
    by (simp add: parse_float_str_def t2 l2 float_of_str_digits del: lower_def)
qed

lemma parse_float_safe_int: "parse_float_safe (PInt n) = Some (rnd (of_int n))"
proof (cases "n < 0")
  case True
  have v: "- rat_of_nat (nat (- n)) = of_int n" using True by simp
  have "parse_float_safe (PInt n) = parse_float_str (45 # nat_digits (nat (- n)))"
    using True by (simp add: str_int_def del: nat_digits.simps)
  also have "\<dots> = Some (rnd (- of_nat (digits_val (nat_digits (nat (- n))))))"
    by (rule parse_float_str_digits(2) [OF nat_digits_all nat_digits_nonempty])
  finally show ?thesis by (simp only: digits_val_nat_digits v)
next
  case False
  have v: "rat_of_nat (nat n) = of_int n" using False by simp
  have "parse_float_safe (PInt n) = parse_float_str (nat_digits (nat n))"
    using False by (simp add: str_int_def del: nat_digits.simps)
  also have "\<dots> = Some (rnd (of_nat (digits_val (nat_digits (nat n)))))"
    by (rule parse_float_str_digits(1) [OF nat_digits_all nat_digits_nonempty])
  finally show ?thesis by (simp only: digits_val_nat_digits v)
qed

lemma parse_float_safe_bool: "parse_float_safe (PBool b) = None"
  by (cases b) (simp_all add: parse_eval)

text \<open>No grade label is a numeral.\<close>

lemma float_of_str_label: "(l, g) \<in> set GRADE_MAP \<Longrightarrow> float_of_str l = None"
  by (auto simp: GRADE_MAP_def float_eval)

lemma parse_float_str_label:
  assumes "(strip s, g) \<in> set GRADE_MAP"
  shows "parse_float_str s = None"
  using float_of_str_label [OF assms] by (simp add: parse_float_str_def Let_def)

lemma grade_of_label:
  "(l, g) \<in> set GRADE_MAP \<Longrightarrow> strip s = l \<Longrightarrow> grade_of (PStr s) = Some g"
  by (auto simp: GRADE_MAP_def)

lemma py_float_grade: "(l, g) \<in> set GRADE_MAP \<Longrightarrow> py_float (PInt g) = Some (Fin (of_int g))"
  by (auto simp: GRADE_MAP_def rnd_numeral)

lemma grade_of_Some: "grade_of v = Some g \<Longrightarrow> \<exists>l. (l, g) \<in> set GRADE_MAP"
  by (cases v) (auto dest: map_of_SomeD)

lemma comp_loop_missing:
  "find (lacks_weight r) ks = Some (score_key, weight_key) \<Longrightarrow>
     comp_loop r ks st = Inl (Missing_weight weight_key score_key)"
proof (induction ks arbitrary: st)
  case Nil
  then show ?case by simp
next
  case (Cons k ks)
  obtain sk wk where k: "k = (sk, wk)" by (cases k)
  obtain tw ws ha where st: "st = (tw, ws, ha)" by (cases st)
  show ?case
    using Cons by (auto simp: k st split: option.splits if_splits)
qed

lemma comp_loop_complete:
  "find (lacks_weight r) ks = None \<Longrightarrow>
     comp_loop r ks (tw, ws, ha) =
       Inr (foldl (\<lambda>acc (s, w). fadd acc w) tw (complete_pairs r ks),
            foldl (\<lambda>acc (s, w). fadd acc (fmul s w)) ws (complete_pairs r ks),
            ha \<or> complete_pairs r ks \<noteq> [])"
proof (induction ks arbitrary: tw ws ha)
  case Nil
  then show ?case by simp
next
  case (Cons k ks)
  obtain sk wk where k: "k = (sk, wk)" by (cases k)
  show ?case
    using Cons by (auto simp: k split: option.splits if_splits)
qed

lemma find_lacks_weight:
  "list_ex (lacks_weight r) ks \<Longrightarrow> \<exists>sk wk. find (lacks_weight r) ks = Some (sk, wk)"
  by (induction ks) auto

lemma find_lacks_weight_None: "\<not> list_ex (lacks_weight r) ks \<Longrightarrow> find (lacks_weight r) ks = None"
  by (induction ks) auto

lemma fgt_zero_nonzero: "fgt x (Fin 0) \<Longrightarrow> x \<noteq> Fin 0 \<and> \<not> fle x (Fin 0)"
  by (cases x) (simp_all add: fgt_def)

text \<open>
  C1: when the score field \<open>ZCJ\<close> is no numeral and no grade label, and one of the three
  component pairs has a score that parses and a weight that does not, the result is
  \<open>(None, True, Missing weight ...)\<close>, naming the first such pair, whatever the other
  pairs hold.
\<close>

theorem estimate_missing_weight:
  assumes "parse_float_safe (dict_get r (ascii ''ZCJ'')) = None"
    and "grade_of (dict_get r (ascii ''ZCJ'')) = None"
    and "list_ex (lacks_weight r) comp_names"
  shows "\<exists>score_key weight_key.
           find (lacks_weight r) comp_names = Some (score_key, weight_key)
           \<and> estimate_zcj_from_row r = Inr (None, True, Missing_weight weight_key score_key)"
proof -
  obtain sk wk where f: "find (lacks_weight r) comp_names = Some (sk, wk)"
    using find_lacks_weight [OF assms(3)] by blast
  have "estimate_zcj_from_row r = Inr (None, True, Missing_weight wk sk)"
    by (simp add: estimate_zcj_from_row_def assms(1,2) comp_loop_missing [OF f])
  with f show ?thesis by blast
qed

theorem estimate_missing_weight_witness:
  "parse_float_safe (dict_get row_missing_weight (ascii ''ZCJ'')) = None
   \<and> grade_of (dict_get row_missing_weight (ascii ''ZCJ'')) = None
   \<and> list_ex (lacks_weight row_missing_weight) comp_names
   \<and> estimate_zcj_from_row row_missing_weight =
       Inr (None, True, Missing_weight (ascii ''PSCJXS'') (ascii ''PSCJ''))"
proof -
  have h1: "parse_float_safe (dict_get row_missing_weight (ascii ''ZCJ'')) = None"
    by (simp add: row_missing_weight_def row_eval)
  have h2: "grade_of (dict_get row_missing_weight (ascii ''ZCJ'')) = None"
    by (simp add: row_missing_weight_def row_eval)
  have h3: "list_ex (lacks_weight row_missing_weight) comp_names"
    by (simp add: row_missing_weight_def row_eval parse_eval)
  have f: "find (lacks_weight row_missing_weight) comp_names =
      Some (ascii ''PSCJ'', ascii ''PSCJXS'')"
    by (simp add: row_missing_weight_def row_eval parse_eval)
  show ?thesis
    using estimate_missing_weight [OF h1 h2 h3] h1 h2 h3 by (auto simp: f)
qed


text \<open>
  C2: when \<open>ZCJ\<close> is no numeral and no grade label, no pair lacks its weight, at least
  one pair is complete and the total weight is greater than 0, the result is the weighted
  sum divided by the total weight, flagged as estimated. The divisor is the total weight
  whatever it is, 100 or not.
\<close>

theorem estimate_weighted_mean:
  assumes "parse_float_safe (dict_get r (ascii ''ZCJ'')) = None"
    and "grade_of (dict_get r (ascii ''ZCJ'')) = None"
    and "\<not> list_ex (lacks_weight r) comp_names"
    and "complete_pairs r comp_names \<noteq> []"
    and "fgt (total_weight_of (complete_pairs r comp_names)) (Fin 0)"
  shows "\<exists>z. fdiv (weighted_sum_of (complete_pairs r comp_names))
                (total_weight_of (complete_pairs r comp_names)) = Inr z
           \<and> estimate_zcj_from_row r =
               Inr (Some z, True, Estimated (total_weight_of (complete_pairs r comp_names)))"
proof -
  let ?ps = "complete_pairs r comp_names"
  note pos = fgt_zero_nonzero [OF assms(5)]
  obtain z where z: "fdiv (weighted_sum_of ?ps) (total_weight_of ?ps) = Inr z"
    using fdiv_nonzero pos by blast
  have loop: "comp_loop r comp_names (Fin 0, Fin 0, False) =
      Inr (total_weight_of ?ps, weighted_sum_of ?ps, True)"
    using comp_loop_complete [OF find_lacks_weight_None [OF assms(3)], of "Fin 0" "Fin 0" False]
      assms(4)
    by (simp add: total_weight_of_def weighted_sum_of_def)
  have "estimate_zcj_from_row r = Inr (Some z, True, Estimated (total_weight_of ?ps))"
    using pos by (simp add: estimate_zcj_from_row_def assms(1,2) loop z)
  with z show ?thesis by blast
qed

theorem estimate_weighted_mean_witness:
  "parse_float_safe (dict_get row_components (ascii ''ZCJ'')) = None
   \<and> grade_of (dict_get row_components (ascii ''ZCJ'')) = None
   \<and> \<not> list_ex (lacks_weight row_components) comp_names
   \<and> complete_pairs row_components comp_names = [(Fin 90, Fin 30), (Fin 80, Fin 20)]
   \<and> total_weight_of (complete_pairs row_components comp_names) = Fin 50
   \<and> fgt (Fin 50) (Fin 0)
   \<and> estimate_zcj_from_row row_components = Inr (Some (Fin 86), True, Estimated (Fin 50))"
proof -
  have h1: "parse_float_safe (dict_get row_components (ascii ''ZCJ'')) = None"
    by (simp add: row_components_def row_eval)
  have h2: "grade_of (dict_get row_components (ascii ''ZCJ'')) = None"
    by (simp add: row_components_def row_eval)
  have h3: "\<not> list_ex (lacks_weight row_components) comp_names"
    by (simp add: row_components_def row_eval parse_eval)
  have ps: "complete_pairs row_components comp_names = [(Fin 90, Fin 30), (Fin 80, Fin 20)]"
    by (simp add: row_components_def row_eval parse_eval)
  have tw: "total_weight_of [(Fin 90, Fin 30), (Fin 80, Fin 20)] = Fin 50"
    by (simp add: total_weight_of_def rnd_numeral)
  have ws: "weighted_sum_of [(Fin 90, Fin 30), (Fin 80, Fin 20)] = Fin 4300"
    by (simp add: weighted_sum_of_def rnd_numeral)
  have h4: "complete_pairs row_components comp_names \<noteq> []"
    by (simp add: ps)
  have h5: "fgt (total_weight_of (complete_pairs row_components comp_names)) (Fin 0)"
    by (simp add: ps tw fgt_def)
  show ?thesis
    using estimate_weighted_mean [OF h1 h2 h3 h4 h5] h1 h2 h3
    by (auto simp: ps tw ws fgt_def rnd_numeral)
qed


text \<open>
  C4: when the score field \<open>ZCJ\<close> parses as a number, the result is that number, not
  estimated, whatever the row holds besides. For a str that is: the stripped string is
  not empty, it is none of the sentinel tokens after lowering, and \<open>float\<close> reads it;
  a stripped string of decimal digits gives the double nearest to the number they write.
  A float gives itself. An int gives the double nearest to it (for an int of no more
  decimal digits than every interpreter prints), the int itself below \<open>2\<^sup>5\<^sup>3\<close> in size.
\<close>

theorem estimate_numeric:
  "(parse_float_safe (dict_get r (ascii ''ZCJ'')) = Some v \<longrightarrow>
      estimate_zcj_from_row r = Inr (Some v, False, Present_numeric))
   \<and> (dict_get r (ascii ''ZCJ'') = PStr s \<and> strip s \<noteq> []
        \<and> lower (strip s) \<notin> set sentinel_tokens \<and> float_of_str (strip s) = Some v \<longrightarrow>
      estimate_zcj_from_row r = Inr (Some v, False, Present_numeric))
   \<and> (dict_get r (ascii ''ZCJ'') = PStr s \<and> strip s \<noteq> [] \<and> list_all is_digit (strip s) \<longrightarrow>
      estimate_zcj_from_row r =
        Inr (Some (rnd (of_nat (digits_val (strip s)))), False, Present_numeric))
   \<and> (dict_get r (ascii ''ZCJ'') = PFloat f \<longrightarrow>
      estimate_zcj_from_row r = Inr (Some f, False, Present_numeric))
   \<and> (dict_get r (ascii ''ZCJ'') = PInt n \<and> \<bar>n\<bar> < 10 ^ int_max_str_digits \<longrightarrow>
      estimate_zcj_from_row r = Inr (Some (rnd (of_int n)), False, Present_numeric))
   \<and> (dict_get r (ascii ''ZCJ'') = PInt n \<and> \<bar>n\<bar> < 2 ^ 53 \<longrightarrow>
      estimate_zcj_from_row r = Inr (Some (Fin (of_int n)), False, Present_numeric))"
proof (intro conjI impI)
  show "estimate_zcj_from_row r = Inr (Some v, False, Present_numeric)"
    if "parse_float_safe (dict_get r (ascii ''ZCJ'')) = Some v"
    using that by (simp add: estimate_zcj_from_row_def)
  show "estimate_zcj_from_row r = Inr (Some v, False, Present_numeric)"
    if "dict_get r (ascii ''ZCJ'') = PStr s \<and> strip s \<noteq> []
        \<and> lower (strip s) \<notin> set sentinel_tokens \<and> float_of_str (strip s) = Some v"
    using that by (simp add: estimate_zcj_from_row_def parse_float_str_def)
  show "estimate_zcj_from_row r =
        Inr (Some (rnd (of_nat (digits_val (strip s)))), False, Present_numeric)"
    if h: "dict_get r (ascii ''ZCJ'') = PStr s \<and> strip s \<noteq> [] \<and> list_all is_digit (strip s)"
  proof -
    have d: "list_all is_digit (strip s)" "strip s \<noteq> []" using h by simp_all
    have "parse_float_str s = Some (rnd (of_nat (digits_val (strip s))))"
      using d digits_not_word(4) [OF d]
      by (simp add: parse_float_str_def digits_lower float_of_str_digits(1))
    then show ?thesis using h by (simp add: estimate_zcj_from_row_def)
  qed
  show "estimate_zcj_from_row r = Inr (Some f, False, Present_numeric)"
    if "dict_get r (ascii ''ZCJ'') = PFloat f"
    using that by (simp add: estimate_zcj_from_row_def)
  show "estimate_zcj_from_row r = Inr (Some (rnd (of_int n)), False, Present_numeric)"
    if "dict_get r (ascii ''ZCJ'') = PInt n \<and> \<bar>n\<bar> < 10 ^ int_max_str_digits"
    using that by (simp add: estimate_zcj_from_row_def parse_float_safe_int del: parse_float_safe.simps)
  show "estimate_zcj_from_row r = Inr (Some (Fin (of_int n)), False, Present_numeric)"
    if h: "dict_get r (ascii ''ZCJ'') = PInt n \<and> \<bar>n\<bar> < 2 ^ 53"
  proof -
    have "rnd (of_int n) = Fin (of_int n)" using h by (intro rnd_of_int) simp
    then show ?thesis
      using h by (simp add: estimate_zcj_from_row_def parse_float_safe_int del: parse_float_safe.simps)
  qed
qed

lemma rnd_above_53: "rnd 9007199254740993 = Fin 9007199254740992"
  by (rule rnd_eval [where e = 53 and n = 4503599627370496])
     (simp_all add: pow2_def round_half_even_tie [of 4503599627370496, simplified])

theorem estimate_numeric_witness:
  "dict_get row_numeric (ascii ''ZCJ'') = PStr (ascii '' 90 '')
   \<and> strip (ascii '' 90 '') = ascii ''90''
   \<and> lower (ascii ''90'') \<notin> set sentinel_tokens
   \<and> float_of_str (ascii ''90'') = Some (Fin 90)
   \<and> list_all is_digit (ascii ''90'') \<and> rnd (of_nat (digits_val (ascii ''90''))) = Fin 90
   \<and> estimate_zcj_from_row row_numeric = Inr (Some (Fin 90), False, Present_numeric)
   \<and> dict_get row_float (ascii ''ZCJ'') = PFloat (Fin (177 / 2))
   \<and> estimate_zcj_from_row row_float = Inr (Some (Fin (177 / 2)), False, Present_numeric)
   \<and> dict_get row_int (ascii ''ZCJ'') = PInt 88 \<and> \<bar>88 :: int\<bar> < 2 ^ 53
   \<and> estimate_zcj_from_row row_int = Inr (Some (Fin 88), False, Present_numeric)
   \<and> dict_get row_big_int (ascii ''ZCJ'') = PInt 9007199254740993
   \<and> \<bar>9007199254740993 :: int\<bar> < 10 ^ int_max_str_digits
   \<and> estimate_zcj_from_row row_big_int =
       Inr (Some (Fin 9007199254740992), False, Present_numeric)"
proof -
  have h1: "dict_get row_numeric (ascii ''ZCJ'') = PStr (ascii '' 90 '')"
    by (simp add: row_numeric_def row_eval)
  have h2: "strip (ascii '' 90 '') = ascii ''90''"
    by (simp add: strip_def is_space_def ascii_def)
  have h3: "lower (ascii ''90'') \<notin> set sentinel_tokens"
    by (simp add: sentinel_tokens_def lower_def ascii_def)
  have h4: "float_of_str (ascii ''90'') = Some (Fin 90)"
    by (simp add: float_eval rnd_numeral)
  have h5: "ascii ''90'' \<noteq> []" "list_all is_digit (ascii ''90'')"
    by (simp_all add: ascii_def is_digit_def)
  have h6: "rnd (of_nat (digits_val (ascii ''90''))) = Fin 90"
    by (simp add: digits_val_def ascii_def rnd_numeral)
  have f: "dict_get row_float (ascii ''ZCJ'') = PFloat (Fin (177 / 2))"
    by (simp add: row_float_def row_eval)
  have i: "dict_get row_int (ascii ''ZCJ'') = PInt 88"
    by (simp add: row_int_def row_eval)
  have b: "dict_get row_big_int (ascii ''ZCJ'') = PInt 9007199254740993"
    by (simp add: row_big_int_def row_eval)
  have "(10 :: int) ^ 16 \<le> 10 ^ int_max_str_digits"
    by (rule power_increasing) (simp_all add: int_max_str_digits_def)
  then have b2: "\<bar>9007199254740993 :: int\<bar> < 10 ^ int_max_str_digits"
    by simp
  show ?thesis
    using estimate_numeric [of row_numeric "Fin 90" "ascii '' 90 ''"]
      estimate_numeric [of row_float _ _ "Fin (177 / 2)"]
      estimate_numeric [of row_int _ _ _ 88]
      estimate_numeric [of row_big_int _ _ _ 9007199254740993]
      h1 h2 h3 h4 h5 h6 f i b b2
    by (simp add: rnd_above_53 rnd_numeral)
qed

text \<open>
  C5: when the score field \<open>ZCJ\<close> is a str that, stripped, is one of the five grade labels,
  the result is the number mapped to the label, as a float and not estimated: 95, 85, 75,
  65 and 55 in the order of the labels.
\<close>

theorem estimate_grade_label:
  assumes "dict_get r (ascii ''ZCJ'') = PStr s"
  shows "((strip s, g) \<in> set GRADE_MAP \<longrightarrow>
            estimate_zcj_from_row r = Inr (Some (Fin (of_int g)), False, Mapped_from_label))
         \<and> (strip s = [20248] \<longrightarrow>
            estimate_zcj_from_row r = Inr (Some (Fin 95), False, Mapped_from_label))
         \<and> (strip s = [33391] \<longrightarrow>
            estimate_zcj_from_row r = Inr (Some (Fin 85), False, Mapped_from_label))
         \<and> (strip s = [20013] \<longrightarrow>
            estimate_zcj_from_row r = Inr (Some (Fin 75), False, Mapped_from_label))
         \<and> (strip s = [21450, 26684] \<longrightarrow>
            estimate_zcj_from_row r = Inr (Some (Fin 65), False, Mapped_from_label))
         \<and> (strip s = [19981, 21450, 26684] \<longrightarrow>
            estimate_zcj_from_row r = Inr (Some (Fin 55), False, Mapped_from_label))"
proof -
  have main: "estimate_zcj_from_row r = Inr (Some (Fin (of_int g)), False, Mapped_from_label)"
    if "(strip s, g) \<in> set GRADE_MAP" for g
    by (simp add: estimate_zcj_from_row_def assms parse_float_str_label [OF that]
        grade_of_label [OF that refl] py_float_grade [OF that]
        del: py_float.simps grade_of.simps)
  show ?thesis
    using main [of 95] main [of 85] main [of 75] main [of 65] main [of 55] main [of g]
    by (simp add: GRADE_MAP_def)
qed

theorem estimate_grade_label_witness:
  "dict_get row_label (ascii ''ZCJ'') = PStr [32, 20248]
   \<and> strip [32, 20248] = [20248]
   \<and> estimate_zcj_from_row row_label = Inr (Some (Fin 95), False, Mapped_from_label)"
proof -
  have h1: "dict_get row_label (ascii ''ZCJ'') = PStr [32, 20248]"
    by (simp add: row_label_def row_eval)
  have h2: "strip [32, 20248] = [20248]"
    by (simp add: strip_def is_space_def)
  show ?thesis
    using estimate_grade_label [OF h1, of 95] h1 h2 by simp
qed

section \<open>\<open>extract_official_courses\<close>\<close>

lemma estimate_no_raise: "\<not> isl (estimate_zcj_from_row r)"
proof (cases "parse_float_safe (dict_get r (ascii ''ZCJ''))")
  case (Some v)
  then show ?thesis by (auto simp: estimate_zcj_from_row_def)
next
  case None
  show ?thesis
  proof (cases "grade_of (dict_get r (ascii ''ZCJ''))")
    case (Some g)
    obtain l where "(l, g) \<in> set GRADE_MAP" using grade_of_Some [OF Some] by blast
    then show ?thesis
      using None Some by (auto simp: estimate_zcj_from_row_def py_float_grade simp del: py_float.simps)
  next
    case g: None
    show ?thesis
    proof (cases "comp_loop r comp_names (Fin 0, Fin 0, False)")
      case (Inl msg)
      then show ?thesis using None g by (auto simp: estimate_zcj_from_row_def)
    next
      case (Inr st)
      obtain tw ws ha where st: "st = (tw, ws, ha)" by (cases st)
      have "\<exists>z. fdiv ws tw = Inr z" if "\<not> fle tw (Fin 0)"
        using that by (intro fdiv_nonzero) auto
      then show ?thesis
        using None g Inr by (auto simp: estimate_zcj_from_row_def st)
    qed
  qed
qed

lemma official_row_no_raise: "\<exists>oc. official_row r = Inr oc"
  using estimate_no_raise [of r]
  by (cases "estimate_zcj_from_row r")
     (auto simp: official_row_def split: option.splits)

lemma extract_official_courses_filter:
  "extract_official_courses rows =
     Inr (List.map_filter (\<lambda>r. case official_row r of Inl e \<Rightarrow> None | Inr oc \<Rightarrow> oc) rows)"
proof (induction rows)
  case Nil
  then show ?case by simp
next
  case (Cons r rows)
  obtain oc where "official_row r = Inr oc" using official_row_no_raise by blast
  then show ?case using Cons by (cases oc) simp_all
qed

lemma in_set_map_filter: "y \<in> set (List.map_filter f xs) \<longleftrightarrow> (\<exists>x \<in> set xs. f x = Some y)"
  by (induction xs) (auto split: option.splits)

lemma not_fle_zero: "\<not> fle x (Fin 0) \<longleftrightarrow> fgt x (Fin 0) \<or> x = NaN"
  by (cases x) (auto simp: fgt_def)

lemma official_row_Some:
  "official_row r = Inr (Some c) \<longleftrightarrow>
     dict_get r (ascii ''KCXZDM_DISPLAY'') \<in> set (map PStr official_types)
     \<and> py_float (dict_get r (ascii ''XF'')) = Some (credit c) \<and> \<not> fle (credit c) (Fin 0)
     \<and> estimate_zcj_from_row r = Inr (Some (score c), estimated c, estimate_reason c)
     \<and> name c = dict_get r (ascii ''XSKCM'') \<and> type c = dict_get r (ascii ''KCXZDM_DISPLAY'')"
  by (cases c) (auto simp: official_row_def split: option.splits sum.splits)

text \<open>
  C3, amended: a row gives a course of the Official set exactly when its category is one
  of the two enrollment types, \<open>float\<close> reads its credit field as a value for which
  \<open>credit <= 0\<close> is false, that is a value greater than 0 or a NaN, and the score
  resolver returns a score that is not \<open>None\<close>. The result holds the courses of these
  rows in the order of the rows, and nothing is raised. A row of any other category gives
  no course.
\<close>

theorem official_row_iff:
  "((\<exists>c. official_row r = Inr (Some c)) \<longleftrightarrow>
      dict_get r (ascii ''KCXZDM_DISPLAY'') \<in> set (map PStr official_types)
      \<and> (\<exists>x. py_float (dict_get r (ascii ''XF'')) = Some x \<and> (fgt x (Fin 0) \<or> x = NaN))
      \<and> (\<exists>s e m. estimate_zcj_from_row r = Inr (Some s, e, m)))
   \<and> (official_row r = Inr None \<or> (\<exists>c. official_row r = Inr (Some c)))
   \<and> extract_official_courses rows =
       Inr (List.map_filter (\<lambda>r. case official_row r of Inl e \<Rightarrow> None | Inr oc \<Rightarrow> oc) rows)
   \<and> (dict_get r (ascii ''KCXZDM_DISPLAY'') \<notin> set (map PStr official_types) \<longrightarrow>
        official_row r = Inr None)"
proof (intro conjI)
  show "(\<exists>c. official_row r = Inr (Some c)) \<longleftrightarrow>
      dict_get r (ascii ''KCXZDM_DISPLAY'') \<in> set (map PStr official_types)
      \<and> (\<exists>x. py_float (dict_get r (ascii ''XF'')) = Some x \<and> (fgt x (Fin 0) \<or> x = NaN))
      \<and> (\<exists>s e m. estimate_zcj_from_row r = Inr (Some s, e, m))"
    (is "?L \<longleftrightarrow> ?R")
  proof
    assume ?L
    then obtain c where "official_row r = Inr (Some c)" by blast
    then show ?R unfolding official_row_Some not_fle_zero by blast
  next
    assume ?R
    then obtain x s e m where h: "dict_get r (ascii ''KCXZDM_DISPLAY'') \<in> set (map PStr official_types)"
      "py_float (dict_get r (ascii ''XF'')) = Some x" "\<not> fle x (Fin 0)"
      "estimate_zcj_from_row r = Inr (Some s, e, m)"
      unfolding not_fle_zero by blast
    have "official_row r = Inr (Some \<lparr>name = dict_get r (ascii ''XSKCM''),
        type = dict_get r (ascii ''KCXZDM_DISPLAY''), score = s, credit = x,
        estimated = e, estimate_reason = m\<rparr>)"
      unfolding official_row_Some using h by simp
    then show ?L by blast
  qed
  show "official_row r = Inr None \<or> (\<exists>c. official_row r = Inr (Some c))"
    using official_row_no_raise [of r] by auto
  show "extract_official_courses rows =
       Inr (List.map_filter (\<lambda>r. case official_row r of Inl e \<Rightarrow> None | Inr oc \<Rightarrow> oc) rows)"
    by (rule extract_official_courses_filter)
  show "dict_get r (ascii ''KCXZDM_DISPLAY'') \<notin> set (map PStr official_types) \<longrightarrow>
        official_row r = Inr None"
    by (simp add: official_row_def)
qed

lemmas official_eval = official_row_def estimate_zcj_from_row_def official_types_def
  dict_get_def parse_eval

lemma official_row_required:
  "official_row row_required =
     Inr (Some \<lparr>name = PNone, type = PStr [24517, 20462], score = Fin 90, credit = Fin 3,
                estimated = False, estimate_reason = Present_numeric\<rparr>)"
  by (simp add: row_required_def official_eval)

lemma official_row_elective: "official_row row_elective = Inr None"
  by (simp add: row_elective_def official_eval)

theorem official_row_iff_witness:
  "dict_get row_required (ascii ''KCXZDM_DISPLAY'') \<in> set (map PStr official_types)
   \<and> py_float (dict_get row_required (ascii ''XF'')) = Some (Fin 3) \<and> fgt (Fin 3) (Fin 0)
   \<and> estimate_zcj_from_row row_required = Inr (Some (Fin 90), False, Present_numeric)
   \<and> (\<exists>c. official_row row_required = Inr (Some c))
   \<and> dict_get row_elective (ascii ''KCXZDM_DISPLAY'') \<notin> set (map PStr official_types)
   \<and> official_row row_elective = Inr None
   \<and> extract_official_courses [row_elective, row_required] =
       Inr [\<lparr>name = PNone, type = PStr [24517, 20462], score = Fin 90, credit = Fin 3,
              estimated = False, estimate_reason = Present_numeric\<rparr>]"
proof -
  have h1: "dict_get row_required (ascii ''KCXZDM_DISPLAY'') \<in> set (map PStr official_types)"
    by (simp add: row_required_def official_eval)
  have h2: "py_float (dict_get row_required (ascii ''XF'')) = Some (Fin 3)"
    by (simp add: row_required_def official_eval)
  have h3: "estimate_zcj_from_row row_required = Inr (Some (Fin 90), False, Present_numeric)"
    by (simp add: row_required_def official_eval)
  have h4: "dict_get row_elective (ascii ''KCXZDM_DISPLAY'') \<notin> set (map PStr official_types)"
    by (simp add: row_elective_def official_eval)
  show ?thesis
    using official_row_iff [of row_required "[row_elective, row_required]"]
      official_row_iff [of row_elective] h1 h2 h3 h4
    by (simp add: official_row_required fgt_def)
qed

text \<open>
  C3 as stated fails on a required course whose credit field reads \<open>nan\<close>: \<open>float\<close>
  reads it as a NaN, which is not greater than 0, and the row is in the Official set all
  the same, because \<open>credit <= 0\<close> is false for it.
\<close>

theorem official_nan_credit_counterexample:
  "dict_get row_nan_credit (ascii ''KCXZDM_DISPLAY'') \<in> set (map PStr official_types)
   \<and> py_float (dict_get row_nan_credit (ascii ''XF'')) = Some NaN
   \<and> \<not> fgt NaN (Fin 0)
   \<and> official_row row_nan_credit =
       Inr (Some \<lparr>name = PNone, type = PStr [24517, 20462], score = Fin 90, credit = NaN,
                  estimated = False, estimate_reason = Present_numeric\<rparr>)
   \<and> extract_official_courses [row_nan_credit] =
       Inr [\<lparr>name = PNone, type = PStr [24517, 20462], score = Fin 90, credit = NaN,
              estimated = False, estimate_reason = Present_numeric\<rparr>]"
  by (simp add: row_nan_credit_def official_eval fgt_def)

text \<open>
  C9, amended: nothing is raised, and every course of the Official set comes from a row
  whose credit field \<open>float\<close> reads as the credit of the course, a value greater than 0 or
  a NaN, and for which the score resolver returns the score of the course, a float and not
  \<open>None\<close>. The score need not be finite.
\<close>

theorem official_courses_invariant:
  "(\<exists>cs. extract_official_courses rows = Inr cs)
   \<and> (extract_official_courses rows = Inr cs \<and> c \<in> set cs \<longrightarrow>
        (fgt (credit c) (Fin 0) \<or> credit c = NaN)
        \<and> (\<exists>r \<in> set rows.
              py_float (dict_get r (ascii ''XF'')) = Some (credit c)
              \<and> estimate_zcj_from_row r =
                  Inr (Some (score c), estimated c, estimate_reason c)))"
proof (intro conjI impI)
  show "\<exists>cs. extract_official_courses rows = Inr cs"
    by (simp add: extract_official_courses_filter)
  assume h: "extract_official_courses rows = Inr cs \<and> c \<in> set cs"
  then have "c \<in> set (List.map_filter
      (\<lambda>r. case official_row r of Inl e \<Rightarrow> None | Inr oc \<Rightarrow> oc) rows)"
    by (simp add: extract_official_courses_filter)
  then obtain r where r: "r \<in> set rows"
    "(case official_row r of Inl e \<Rightarrow> None | Inr oc \<Rightarrow> oc) = Some c"
    unfolding in_set_map_filter by blast
  have r2: "official_row r = Inr (Some c)"
    using r(2) by (cases "official_row r") simp_all
  note c = r2 [unfolded official_row_Some]
  show "fgt (credit c) (Fin 0) \<or> credit c = NaN"
    using c by (simp add: not_fle_zero)
  show "\<exists>r \<in> set rows.
              py_float (dict_get r (ascii ''XF'')) = Some (credit c)
              \<and> estimate_zcj_from_row r =
                  Inr (Some (score c), estimated c, estimate_reason c)"
    using c r(1) by blast
qed

theorem official_courses_invariant_witness:
  "extract_official_courses [row_elective, row_required] =
     Inr [\<lparr>name = PNone, type = PStr [24517, 20462], score = Fin 90, credit = Fin 3,
            estimated = False, estimate_reason = Present_numeric\<rparr>]
   \<and> fgt (Fin 3) (Fin 0)
   \<and> py_float (dict_get row_required (ascii ''XF'')) = Some (Fin 3)
   \<and> estimate_zcj_from_row row_required = Inr (Some (Fin 90), False, Present_numeric)"
proof -
  have e: "extract_official_courses [row_elective, row_required] =
     Inr [\<lparr>name = PNone, type = PStr [24517, 20462], score = Fin 90, credit = Fin 3,
            estimated = False, estimate_reason = Present_numeric\<rparr>]"
    by (simp add: official_row_required official_row_elective)
  have h2: "py_float (dict_get row_required (ascii ''XF'')) = Some (Fin 3)"
    by (simp add: row_required_def official_eval)
  have h3: "estimate_zcj_from_row row_required = Inr (Some (Fin 90), False, Present_numeric)"
    by (simp add: row_required_def official_eval)
  show ?thesis
    using official_courses_invariant [of "[row_elective, row_required]"
        "[\<lparr>name = PNone, type = PStr [24517, 20462], score = Fin 90, credit = Fin 3,
            estimated = False, estimate_reason = Present_numeric\<rparr>]"
        "\<lparr>name = PNone, type = PStr [24517, 20462], score = Fin 90, credit = Fin 3,
            estimated = False, estimate_reason = Present_numeric\<rparr>"] e h2 h3
    by (simp add: fgt_def)
qed

text \<open>
  C9 as stated fails on a required course of 3 credits whose score field reads \<open>nan\<close>:
  the course is in the Official set with a NaN for its score.
\<close>

theorem official_nan_score_counterexample:
  "extract_official_courses [row_nan_score] =
     Inr [\<lparr>name = PNone, type = PStr [24517, 20462], score = NaN, credit = Fin 3,
            estimated = False, estimate_reason = Present_numeric\<rparr>]"
  by (simp add: row_nan_score_def official_eval)

section \<open>\<open>extract_json_objects\<close>\<close>

lemma scan_brace_free:
  "brace_free t \<Longrightarrow> foldl (extract_step text) st (enumerate k t) = st"
proof (induction t arbitrary: k)
  case Nil
  then show ?case by simp
next
  case (Cons c t)
  obtain objs brace start where st: "st = (objs, brace, start)" by (cases st)
  have "brace_free t" and "c \<noteq> 123" and "c \<noteq> 125"
    using Cons.prems by (auto simp: brace_free_def)
  then show ?case using Cons.IH by (simp add: st)
qed

text \<open>Inside a block the depth stays above zero, so nothing is emitted.\<close>

lemma scan_balanced:
  "balanced d w \<Longrightarrow>
     foldl (extract_step text) (objs, 1 + int d, Some s) (enumerate k w) = (objs, 1, Some s)"
proof (induction w arbitrary: d k)
  case Nil
  then show ?case by simp
next
  case (Cons c w)
  show ?case
  proof (cases "c = 123")
    case True
    then have "balanced (Suc d) w" using Cons.prems by simp
    from Cons.IH [OF this, of "Suc k"] show ?thesis using True by (simp add: add.commute)
  next
    case False
    show ?thesis
    proof (cases "c = 125")
      case True
      then obtain d' where d: "d = Suc d'" "balanced d' w"
        using Cons.prems by (cases d) simp_all
      from Cons.IH [OF d(2), of "Suc k"] show ?thesis using True d(1) by simp
    next
      case c: False
      then have "balanced d w" using Cons.prems False by simp
      from Cons.IH [OF this, of "Suc k"] show ?thesis using False c by simp
    qed
  qed
qed

lemma scan_block:
  assumes "balanced 0 body"
  shows "foldl (extract_step text) (objs, 0, None) (enumerate k (block body)) =
           (objs @ [slice text k (k + length (block body))], 0, None)"
proof -
  have e: "enumerate k (block body) =
      (k, 123) # enumerate (Suc k) body @ [(Suc k + length body, 125)]"
    by (simp add: block_def enumerate_append_eq)
  show ?thesis
    unfolding e
    using scan_balanced [OF assms, of "text" objs k "Suc k"]
    by (simp add: block_def)
qed

lemma slice_middle: "slice (xs @ ys @ zs) (length xs) (length xs + length ys) = ys"
  by (simp add: slice_def)

text \<open>
  C8, amended: for two blocks, each an opening brace, a body whose brace characters are
  balanced and a closing brace, with text free of braces before, between and after them,
  the extractor gives exactly the two blocks, in their order, each with its nested
  braces as they stand.
\<close>

theorem extract_two_blocks:
  assumes "brace_free p" "brace_free m" "brace_free q"
    and "balanced 0 a" "balanced 0 b"
  shows "extract_json_objects (p @ block a @ m @ block b @ q) = [block a, block b]"
proof -
  let ?t = "p @ block a @ m @ block b @ q"
  let ?k1 = "length p"
  let ?k2 = "length p + length (block a) + length m"
  have s1: "slice ?t ?k1 (?k1 + length (block a)) = block a"
    by (rule slice_middle)
  have "slice ((p @ block a @ m) @ block b @ q) (length (p @ block a @ m))
      (length (p @ block a @ m) + length (block b)) = block b"
    by (rule slice_middle)
  then have s2: "slice ?t ?k2 (?k2 + length (block b)) = block b"
    by (simp add: add.assoc)
  have e: "enumerate 0 ?t =
      enumerate 0 p @ enumerate ?k1 (block a) @ enumerate (?k1 + length (block a)) m
      @ enumerate ?k2 (block b) @ enumerate (?k2 + length (block b)) q"
    by (simp add: enumerate_append_eq add.assoc)
  show ?thesis
    unfolding extract_json_objects_def e foldl_append
    by (simp only: scan_brace_free [OF assms(1)] scan_brace_free [OF assms(2)]
        scan_brace_free [OF assms(3)] scan_block [OF assms(4)] scan_block [OF assms(5)]
        s1 s2 fst_conv append_Nil append_Cons)
qed

text \<open>The text \<open>x = {"a":{"b":1}}, {}\<close>, with the bodies \<open>"a":{"b":1}\<close> and the empty one.\<close>

theorem extract_two_blocks_witness:
  "brace_free (ascii ''x = '') \<and> brace_free (ascii '', '') \<and> brace_free []
   \<and> balanced 0 [34, 97, 34, 58, 123, 34, 98, 34, 58, 49, 125] \<and> balanced 0 []
   \<and> extract_json_objects
        (ascii ''x = '' @ block [34, 97, 34, 58, 123, 34, 98, 34, 58, 49, 125]
         @ ascii '', '' @ block [] @ []) =
       [[123, 34, 97, 34, 58, 123, 34, 98, 34, 58, 49, 125, 125], [123, 125]]"
proof -
  have h1: "brace_free (ascii ''x = '')" by (simp add: brace_free_def ascii_def)
  have h2: "brace_free (ascii '', '')" by (simp add: brace_free_def ascii_def)
  have h3: "brace_free []" by (simp add: brace_free_def)
  have h4: "balanced 0 [34, 97, 34, 58, 123, 34, 98, 34, 58, 49, 125]" by simp
  have h5: "balanced 0 []" by simp
  show ?thesis
    using extract_two_blocks [OF h1 h2 h3 h4 h5] h1 h2 h3 h4 h5
    by (simp add: block_def)
qed

text \<open>
  C8 as stated fails when a string literal holds a brace. The text is the two JSON objects
  \<open>{"a":"}"}\<close> and \<open>{}\<close> one after the other; the brace inside the string closes the
  first object early, the depth then falls below zero, and the extractor gives the one
  substring \<open>{"a":"}\<close>.
\<close>

theorem extract_string_brace_counterexample:
  "extract_json_objects ([123, 34, 97, 34, 58, 34, 125, 34, 125] @ [123, 125]) =
     [[123, 34, 97, 34, 58, 34, 125]]
   \<and> extract_json_objects ([123, 34, 97, 34, 58, 34, 125, 34, 125] @ [123, 125]) \<noteq>
     [[123, 34, 97, 34, 58, 34, 125, 34, 125], [123, 125]]"
  by (simp add: extract_json_objects_def slice_def)

end
